theory Spec2Isabelle
  imports Complex_Main
begin

section \<open>Pads on the electrical ports of a component\<close>

text \<open>
  The development follows \<^verbatim>\<open>gdsfactory/routing/add_electrical_pads_shortest.py\<close>.
  Components are mutable Python objects, so they live in a store and are named by their
  address; the function under study allocates its output there and returns the address.
  Coordinates, spacings and angles are Python floats; they are read here as exact real
  numbers, so the rounding of IEEE arithmetic is outside the model.
\<close>

subsection \<open>Data\<close>

datatype error = LookupError | AttributeError | KeyError | ValueError

record port =
  name :: string
  px :: real
  py :: real
  orientation :: real
  port_type :: string

text \<open>A Python \<^verbatim>\<open>dict\<close> keeps insertion order: an association list with distinct keys.\<close>

type_synonym port_dict = "(string \<times> port) list"

type_synonym addr = nat

record reference =
  parent :: addr
  origin_x :: real
  origin_y :: real

datatype child = Instance reference | Route port port string

record component =
  name :: string
  ports :: port_dict
  info :: "(string \<times> real) list"
  center_x :: real
  center_y :: real
  references :: "child list"

type_synonym heap = "component list"

subsection \<open>Library operations the function calls\<close>

text \<open>Subscripting a \<^verbatim>\<open>dict\<close>: a missing key raises \<^verbatim>\<open>KeyError\<close>.\<close>

definition dict_getitem :: "(string \<times> 'v) list \<Rightarrow> string \<Rightarrow> error + 'v" where
  "dict_getitem d k = (case map_of d k of None \<Rightarrow> Inl KeyError | Some v \<Rightarrow> Inr v)"

text \<open>
  Modelled from the spec: \<^verbatim>\<open>Component()\<close> is not part of the file. The output
  component is created empty; the bounding box of the growing output is never read by the
  function and is not tracked.
\<close>

definition Component_new :: component where
  "Component_new =
     \<lparr>name = ''Unnamed'', ports = [], info = [], center_x = 0, center_y = 0, references = []\<rparr>"

text \<open>
  Modelled from the spec: \<^verbatim>\<open>c << component\<close> adds to \<^verbatim>\<open>c\<close> a reference (a placed
  copy) of another component, at the origin, and returns that reference.
\<close>

definition new_reference :: "addr \<Rightarrow> reference" where
  "new_reference a = \<lparr>parent = a, origin_x = 0, origin_y = 0\<rparr>"

definition add_child :: "component \<Rightarrow> child \<Rightarrow> component" where
  "add_child c r = c\<lparr>references := references c @ [r]\<rparr>"

text \<open>
  The reference returned by \<^verbatim>\<open>c << pad\<close> is the very object held in the reference list of
  \<^verbatim>\<open>c\<close>: assigning to its position updates that entry in place.
\<close>

definition set_child :: "component \<Rightarrow> nat \<Rightarrow> child \<Rightarrow> component" where
  "set_child c k r = c\<lparr>references := (references c)[k := r]\<rparr>"

text \<open>
  Modelled from the spec: the ports of a reference are those of its parent, under the same
  names, moved by the placement of the reference (the function never rotates one).
\<close>

definition move_port :: "real \<Rightarrow> real \<Rightarrow> port \<Rightarrow> port" where
  "move_port dx dy p = p\<lparr>px := px p + dx, py := py p + dy\<rparr>"

definition reference_ports :: "heap \<Rightarrow> reference \<Rightarrow> port_dict" where
  "reference_ports h r =
     map (\<lambda>(k, p). (k, move_port (origin_x r) (origin_y r) p)) (ports (h ! parent r))"

text \<open>
  Modelled from the spec: \<^verbatim>\<open>ref[port_name]\<close> resolves a name against the ports of the
  reference and fails with \<^verbatim>\<open>LookupError\<close> if the name does not exist.
\<close>

definition reference_getitem :: "heap \<Rightarrow> reference \<Rightarrow> string \<Rightarrow> error + port" where
  "reference_getitem h r k =
     (case map_of (reference_ports h r) k of None \<Rightarrow> Inl LookupError | Some p \<Rightarrow> Inr p)"

text \<open>
  Modelled from the spec: \<^verbatim>\<open>p.x\<close> and \<^verbatim>\<open>p.y\<close> are the centre of the placed pad, that
  is the centre of the parent's bounding box moved by the reference; assigning to one of
  them moves the reference so that the centre takes the value assigned.
\<close>

definition reference_x :: "heap \<Rightarrow> reference \<Rightarrow> real" where
  "reference_x h r = center_x (h ! parent r) + origin_x r"

definition reference_y :: "heap \<Rightarrow> reference \<Rightarrow> real" where
  "reference_y h r = center_y (h ! parent r) + origin_y r"

definition set_x :: "heap \<Rightarrow> reference \<Rightarrow> real \<Rightarrow> reference" where
  "set_x h r v = r\<lparr>origin_x := origin_x r + (v - reference_x h r)\<rparr>"

definition set_y :: "heap \<Rightarrow> reference \<Rightarrow> real \<Rightarrow> reference" where
  "set_y h r v = r\<lparr>origin_y := origin_y r + (v - reference_y h r)\<rparr>"

text \<open>
  Modelled from the spec: \<^verbatim>\<open>route_quad\<close> is an external primitive; it returns one routing
  shape on the given layer that joins the two ports it is given.
\<close>

definition route_quad :: "port \<Rightarrow> port \<Rightarrow> string \<Rightarrow> child" where
  "route_quad p1 p2 layer = Route p1 p2 layer"

text \<open>
  Modelled from the spec: \<^verbatim>\<open>add_port\<close> stores a copy of the port under the name given.
  Port names within a component are unique: a name already present is refused
  (\<^verbatim>\<open>ValueError\<close>). \<^verbatim>\<open>add_ports\<close> adds each port of a collection under its own name.
\<close>

definition add_port :: "component \<Rightarrow> port \<Rightarrow> string \<Rightarrow> error + component" where
  "add_port c p n =
     (if n \<in> fst ` set (ports c) then Inl ValueError
      else Inr (c\<lparr>ports := ports c @ [(n, p\<lparr>port.name := n\<rparr>)]\<rparr>))"

fun add_ports :: "component \<Rightarrow> port list \<Rightarrow> error + component" where
  "add_ports c [] = Inr c"
| "add_ports c (p # ps) =
     (case add_port c p (port.name p) of Inl e \<Rightarrow> Inl e | Inr c' \<Rightarrow> add_ports c' ps)"

text \<open>\<^verbatim>\<open>c.ports.pop(k)\<close> on the port dictionary: a missing key raises \<^verbatim>\<open>KeyError\<close>.\<close>

definition ports_pop :: "component \<Rightarrow> string \<Rightarrow> error + component" where
  "ports_pop c k =
     (if k \<in> fst ` set (ports c) then Inr (c\<lparr>ports := filter (\<lambda>(k', p). k' \<noteq> k) (ports c)\<rparr>)
      else Inl KeyError)"

text \<open>
  Modelled from the spec: \<^verbatim>\<open>copy_child_info\<close> propagates the descriptive metadata of the
  original component to the output.
\<close>

definition copy_child_info :: "component \<Rightarrow> component \<Rightarrow> component" where
  "copy_child_info c child = c\<lparr>info := info child\<rparr>"

text \<open>Python's \<^verbatim>\<open>str\<close> of a natural number: its decimal digits.\<close>

fun str :: "nat \<Rightarrow> string" where
  "str n = (if n < 10 then [''0123456789'' ! n] else str (n div 10) @ [''0123456789'' ! (n mod 10)])"

declare str.simps [simp del]

subsection \<open>The function\<close>

text \<open>
  Lines 50 to 54 bind \<^verbatim>\<open>ports\<close> to a list of ports when port names are given and to
  the dictionary returned by \<^verbatim>\<open>select_ports\<close> otherwise; line 55 calls \<^verbatim>\<open>.values()\<close> on
  it, which a list does not have.
\<close>

datatype selected = PortList "port list" | PortDict port_dict

fun resolve_names :: "heap \<Rightarrow> reference \<Rightarrow> string list \<Rightarrow> error + port list" where
  "resolve_names h r [] = Inr []"
| "resolve_names h r (n # ns) =
     (case reference_getitem h r n of
        Inl e \<Rightarrow> Inl e
      | Inr p \<Rightarrow> (case resolve_names h r ns of Inl e \<Rightarrow> Inl e | Inr ps \<Rightarrow> Inr (p # ps)))"

text \<open>
  Lines 50 to 54. The test \<^verbatim>\<open>if port_names\<close> is false for \<^verbatim>\<open>None\<close> and for the empty
  list.
\<close>

fun select :: "heap \<Rightarrow> reference \<Rightarrow> (port_dict \<Rightarrow> port_dict) \<Rightarrow> string list option
    \<Rightarrow> error + selected" where
  "select h r select_ports (Some (n # ns)) =
     (case resolve_names h r (n # ns) of Inl e \<Rightarrow> Inl e | Inr ps \<Rightarrow> Inr (PortList ps))"
| "select h r select_ports (Some []) = Inr (PortDict (select_ports (reference_ports h r)))"
| "select h r select_ports None = Inr (PortDict (select_ports (reference_ports h r)))"

fun values_list :: "selected \<Rightarrow> error + port list" where
  "values_list (PortList ps) = Inl AttributeError"
| "values_list (PortDict d) = Inr (map snd d)"

text \<open>
  Lines 62 to 77: the position given to the pad and the pad pin the route ends at; when no
  branch is taken the pad is left where \<^verbatim>\<open>c << pad\<close> put it and nothing is routed.
\<close>

definition place :: "heap \<Rightarrow> reference \<Rightarrow> port \<Rightarrow> real \<Rightarrow> real \<Rightarrow> reference \<times> string option" where
  "place h p port pad_port_spacing port_orientation =
     (if port_orientation = 0 then
        (set_y h (set_x h p (px port + pad_port_spacing)) (py port), Some ''e1'')
      else if port_orientation = 180 then
        (set_y h (set_x h p (px port - pad_port_spacing)) (py port), Some ''e3'')
      else if port_orientation = 90 then
        (set_x h (set_y h p (py port + pad_port_spacing)) (px port), Some ''e4'')
      else if port_orientation = 270 then
        (set_x h (set_y h p (py port - pad_port_spacing)) (px port), Some ''e2'')
      else (p, None))"

definition pad_port_name :: "string \<Rightarrow> nat \<Rightarrow> string" where
  "pad_port_name component_name i = ''elec-'' @ component_name @ ''-'' @ str (i + 1)"

text \<open>Lines 60 to 79, the body of the loop over the selected ports.\<close>

definition loop_body :: "heap \<Rightarrow> addr \<Rightarrow> addr \<Rightarrow> addr \<Rightarrow> real \<Rightarrow> real \<Rightarrow> string \<Rightarrow> nat \<Rightarrow> port
    \<Rightarrow> error + heap" where
  "loop_body h c component pad pad_port_spacing port_orientation layer i port =
     (let k = length (references (h ! c));
          h1 = h[c := add_child (h ! c) (Instance (new_reference pad))];
          (p, pin) = place h1 (new_reference pad) port pad_port_spacing port_orientation;
          h2 = h1[c := set_child (h1 ! c) k (Instance p)]
      in case (case pin of
                 None \<Rightarrow> Inr h2
               | Some e \<Rightarrow>
                   (case dict_getitem (reference_ports h2 p) e of
                      Inl err \<Rightarrow> Inl err
                    | Inr q \<Rightarrow> Inr (h2[c := add_child (h2 ! c) (route_quad port q layer)]))) of
           Inl err \<Rightarrow> Inl err
         | Inr h3 \<Rightarrow>
             (case dict_getitem (reference_ports h3 p) ''pad'' of
                Inl err \<Rightarrow> Inl err
              | Inr q \<Rightarrow>
                  (case add_port (h3 ! c) q (pad_port_name (component.name (h3 ! component)) i) of
                     Inl err \<Rightarrow> Inl err
                   | Inr c' \<Rightarrow> Inr (h3[c := c']))))"

fun pads_loop :: "heap \<Rightarrow> addr \<Rightarrow> addr \<Rightarrow> addr \<Rightarrow> real \<Rightarrow> real \<Rightarrow> string \<Rightarrow> nat \<Rightarrow> port list
    \<Rightarrow> error + heap" where
  "pads_loop h c component pad pad_port_spacing port_orientation layer i [] = Inr h"
| "pads_loop h c component pad pad_port_spacing port_orientation layer i (port # rest) =
     (case loop_body h c component pad pad_port_spacing port_orientation layer i port of
        Inl err \<Rightarrow> Inl err
      | Inr h' \<Rightarrow> pads_loop h' c component pad pad_port_spacing port_orientation layer (Suc i) rest)"

text \<open>Lines 83 and 84.\<close>

fun pop_loop :: "heap \<Rightarrow> addr \<Rightarrow> port list \<Rightarrow> error + heap" where
  "pop_loop h c [] = Inr h"
| "pop_loop h c (port # rest) =
     (case ports_pop (h ! c) (port.name port) of
        Inl err \<Rightarrow> Inl err
      | Inr c' \<Rightarrow> pop_loop (h[c := c']) c rest)"

text \<open>
  The whole function. \<^verbatim>\<open>get_component\<close> resolves its argument to a component of the
  store and fails on one that denotes none; the returned address is that of the new
  component \<^verbatim>\<open>c\<close>.
\<close>

definition add_electrical_pads_shortest :: "heap \<Rightarrow> addr \<Rightarrow> addr \<Rightarrow> real \<Rightarrow> (port_dict \<Rightarrow> port_dict)
    \<Rightarrow> string list option \<Rightarrow> real \<Rightarrow> string \<Rightarrow> error + heap \<times> addr" where
  "add_electrical_pads_shortest h component pad pad_port_spacing select_ports port_names
       port_orientation layer =
     (if \<not> (component < length h \<and> pad < length h) then Inl ValueError
      else
        let c = length h;
            h1 = h @ [Component_new];
            ref = new_reference component;
            h2 = h1[c := add_child (h1 ! c) (Instance ref)]
        in case select h2 ref select_ports port_names of
             Inl err \<Rightarrow> Inl err
           | Inr sel \<Rightarrow>
        (case values_list sel of
             Inl err \<Rightarrow> Inl err
           | Inr sel_ports \<Rightarrow>
        (case dict_getitem (info (h2 ! pad)) ''xsize'' of
             Inl err \<Rightarrow> Inl err
           | Inr xsize \<Rightarrow>
        (case pads_loop h2 c component pad (pad_port_spacing + xsize / 2) port_orientation
                layer 0 sel_ports of
             Inl err \<Rightarrow> Inl err
           | Inr h3 \<Rightarrow>
        (case add_ports (h3 ! c) (map snd (reference_ports h3 ref)) of
             Inl err \<Rightarrow> Inl err
           | Inr c4 \<Rightarrow>
        (case pop_loop (h3[c := c4]) c sel_ports of
             Inl err \<Rightarrow> Inl err
           | Inr h5 \<Rightarrow> Inr (h5[c := copy_child_info (h5 ! c) (h5 ! component)], c)))))))"

subsection \<open>Reading a component\<close>

text \<open>The placed copies and the routing shapes among the children of a component.\<close>

fun instances :: "child list \<Rightarrow> reference list" where
  "instances [] = []"
| "instances (Instance r # cs) = r # instances cs"
| "instances (Route p q l # cs) = instances cs"

fun routes :: "child list \<Rightarrow> (port \<times> port \<times> string) list" where
  "routes [] = []"
| "routes (Instance r # cs) = routes cs"
| "routes (Route p q l # cs) = (p, q, l) # routes cs"

text \<open>The centre of a placed copy, and the position of a port.\<close>

definition reference_center :: "heap \<Rightarrow> reference \<Rightarrow> real \<times> real" where
  "reference_center h r = (reference_x h r, reference_y h r)"

definition port_center :: "port \<Rightarrow> real \<times> real" where
  "port_center p = (px p, py p)"

text \<open>
  The component a run returned, if it returned one; the names and positions of the ports
  of a component; the pads placed in an output, which are the references after the first,
  the one to the component itself; and whether a run returned a component with a port of
  a given name at a given position.
\<close>

definition returned :: "error + heap \<times> addr \<Rightarrow> component option" where
  "returned r = (case r of Inl e \<Rightarrow> None | Inr (h, c) \<Rightarrow> Some (h ! c))"

definition port_centers :: "component \<Rightarrow> (string \<times> real \<times> real) list" where
  "port_centers c = map (\<lambda>(k, p). (k, px p, py p)) (ports c)"

definition pad_references :: "component \<Rightarrow> reference list" where
  "pad_references c = tl (instances (references c))"

definition has_port_at :: "error + heap \<times> addr \<Rightarrow> string \<Rightarrow> real \<Rightarrow> real \<Rightarrow> bool" where
  "has_port_at r n a b =
     (case returned r of None \<Rightarrow> False | Some c \<Rightarrow> (n, a, b) \<in> set (port_centers c))"

text \<open>
  The entry that one pass of the loop adds to the ports of the output, for the pad placed
  as \<open>r\<close> and the port \<open>q\<close> that the pad cell calls \<^verbatim>\<open>pad\<close>; and the entries added
  for a list of selected ports, numbered from \<open>i\<close>.
\<close>

definition exposed :: "string \<Rightarrow> reference \<Rightarrow> port \<Rightarrow> nat \<Rightarrow> string \<times> port" where
  "exposed component_name r q i =
     (pad_port_name component_name i,
      (move_port (origin_x r) (origin_y r) q)\<lparr>port.name := pad_port_name component_name i\<rparr>)"

definition placed :: "heap \<Rightarrow> addr \<Rightarrow> port \<Rightarrow> real \<Rightarrow> real \<Rightarrow> reference" where
  "placed h pad port pad_port_spacing port_orientation =
     fst (place h (new_reference pad) port pad_port_spacing port_orientation)"

fun pad_ports :: "heap \<Rightarrow> addr \<Rightarrow> string \<Rightarrow> real \<Rightarrow> real \<Rightarrow> port \<Rightarrow> nat \<Rightarrow> port list \<Rightarrow> port_dict" where
  "pad_ports h pad component_name sp ang q i [] = []"
| "pad_ports h pad component_name sp ang q i (port # rest) =
     exposed component_name (placed h pad port sp ang) q i
       # pad_ports h pad component_name sp ang q (Suc i) rest"

text \<open>
  The ports the loop runs over when no port names are given: the values of the dictionary
  that \<^verbatim>\<open>select_ports\<close> returns for the ports of the reference to the component.
\<close>

definition selected_ports :: "heap \<Rightarrow> addr \<Rightarrow> (port_dict \<Rightarrow> port_dict) \<Rightarrow> port list" where
  "selected_ports h component select_ports =
     map snd (select_ports (reference_ports h (new_reference component)))"

subsection \<open>The scenario of the specification\<close>

text \<open>
  Modelled from the spec: the default selection keeps the ports of electrical role, in the
  order of the dictionary.
\<close>

definition select_ports_electrical :: "port_dict \<Rightarrow> port_dict" where
  "select_ports_electrical d = filter (\<lambda>(k, p). port_type p = ''electrical'') d"

text \<open>
  Modelled from the spec: a straight wire of length 200 with the ports \<^verbatim>\<open>e1\<close> (facing
  180 degrees, at the origin) and \<^verbatim>\<open>e2\<close> (facing 0 degrees, at (200, 0)), and a pad of
  half-extent 10 whose pins \<^verbatim>\<open>e1\<close> to \<^verbatim>\<open>e4\<close> sit on its west, north, east and south edges
  and whose port \<^verbatim>\<open>pad\<close> sits at its centre.
\<close>

definition mk_port :: "string \<Rightarrow> real \<Rightarrow> real \<Rightarrow> real \<Rightarrow> string \<Rightarrow> string \<times> port" where
  "mk_port n a b ang ty = (n, \<lparr>port.name = n, px = a, py = b, orientation = ang, port_type = ty\<rparr>)"

definition wire :: component where
  "wire = \<lparr>name = ''wire'',
            ports = [mk_port ''e1'' 0 0 180 ''electrical'', mk_port ''e2'' 200 0 0 ''electrical''],
            info = [(''length'', 200)], center_x = 100, center_y = 0, references = []\<rparr>"

definition pad20 :: component where
  "pad20 = \<lparr>name = ''pad'',
             ports = [mk_port ''e1'' (-10) 0 180 ''electrical'', mk_port ''e2'' 0 10 90 ''electrical'',
                      mk_port ''e3'' 10 0 0 ''electrical'', mk_port ''e4'' 0 (-10) 270 ''electrical'',
                      mk_port ''pad'' 0 0 0 ''vertical_dc''],
             info = [(''xsize'', 20), (''ysize'', 20)], center_x = 0, center_y = 0,
             references = []\<rparr>"

text \<open>
  A further input for the examples: the same wire with a third port, of optical role, that
  the default selection leaves alone.
\<close>

definition tapped_wire :: component where
  "tapped_wire = wire\<lparr>ports := ports wire @ [mk_port ''o1'' 100 0 90 ''optical'']\<rparr>"

text \<open>
  A pad that is not square, 20 wide and 40 high, with its pins on the middle of its edges;
  and half of the extent of a pad along the connection axis, which is the x axis for the
  orientations 0 and 180 and the y axis for 90 and 270, read from the extents that the pad
  records about itself.
\<close>

definition tall_pad :: component where
  "tall_pad = \<lparr>name = ''pad'',
             ports = [mk_port ''e1'' (-10) 0 180 ''electrical'', mk_port ''e2'' 0 20 90 ''electrical'',
                      mk_port ''e3'' 10 0 0 ''electrical'', mk_port ''e4'' 0 (-20) 270 ''electrical'',
                      mk_port ''pad'' 0 0 0 ''vertical_dc''],
             info = [(''xsize'', 20), (''ysize'', 40)], center_x = 0, center_y = 0,
             references = []\<rparr>"

definition connection_half_extent :: "component \<Rightarrow> real \<Rightarrow> real option" where
  "connection_half_extent pad port_orientation =
     map_option (\<lambda>v. v / 2)
       (map_of (info pad)
          (if port_orientation = 0 \<or> port_orientation = 180 then ''xsize'' else ''ysize''))"

text \<open>The centres of the pads placed by a run, if it returned.\<close>

definition pad_centers :: "error + heap \<times> addr \<Rightarrow> (real \<times> real) list option" where
  "pad_centers r =
     (case r of Inl e \<Rightarrow> None
      | Inr (h, c) \<Rightarrow> Some (map (reference_center h) (pad_references (h ! c))))"

definition scenario :: "real \<Rightarrow> error + heap \<times> addr" where
  "scenario port_orientation =
     add_electrical_pads_shortest [wire, pad20] 0 1 50 select_ports_electrical None
       port_orientation ''M3''"

section \<open>Properties\<close>

subsection \<open>Auxiliary facts\<close>

lemma instances_append [simp]: "instances (xs @ ys) = instances xs @ instances ys"
  by (induction xs rule: instances.induct) simp_all

lemma routes_append [simp]: "routes (xs @ ys) = routes xs @ routes ys"
  by (induction xs rule: routes.induct) simp_all

lemma parent_set_x [simp]: "parent (set_x h r v) = parent r"
  by (simp add: set_x_def)

lemma parent_set_y [simp]: "parent (set_y h r v) = parent r"
  by (simp add: set_y_def)

lemma parent_place [simp]: "parent (fst (place h p port sp ang)) = parent p"
  by (simp add: place_def)

lemma place_heap_cong: "h1 ! parent p = h ! parent p \<Longrightarrow> place h1 p port sp ang = place h p port sp ang"
  by (simp add: place_def set_x_def set_y_def reference_x_def reference_y_def)

lemma reference_ports_heap_cong:
  "h1 ! parent r = h ! parent r \<Longrightarrow> reference_ports h1 r = reference_ports h r"
  by (simp add: reference_ports_def)

lemma reference_center_heap_cong:
  "h1 ! parent r = h ! parent r \<Longrightarrow> reference_center h1 r = reference_center h r"
  by (simp add: reference_center_def reference_x_def reference_y_def)

lemma map_of_reference_ports:
  "map_of (reference_ports h r) k = map_option (move_port (origin_x r) (origin_y r)) (map_of (ports (h ! parent r)) k)"
  unfolding reference_ports_def by (induction "ports (h ! parent r)" arbitrary: ) (auto simp: map_of_map)

lemma loop_body_Inr:
  assumes run: "loop_body h c component pad sp ang layer i port = Inr h'"
      and c: "c < length h" and pc: "pad \<noteq> c" and cc: "component \<noteq> c"
  shows "\<exists>q rs. map_of (ports (h ! pad)) ''pad'' = Some q \<and>
           instances rs = [] \<and>
           length (routes rs) = (if ang \<in> {0, 90, 180, 270} then 1 else 0) \<and>
           length h' = length h \<and> (\<forall>a. a \<noteq> c \<longrightarrow> h' ! a = h ! a) \<and>
           ports (h' ! c) = ports (h ! c) @
              [exposed (component.name (h ! component)) (placed h pad port sp ang) q i] \<and>
           references (h' ! c) = references (h ! c) @ Instance (placed h pad port sp ang) # rs"
proof -
  define h1 where "h1 = h[c := add_child (h ! c) (Instance (new_reference pad))]"
  define r where "r = fst (place h (new_reference pad) port sp ang)"
  define pin where "pin = snd (place h (new_reference pad) port sp ang)"
  have h1pad: "h1 ! parent (new_reference pad) = h ! parent (new_reference pad)"
    using pc by (simp add: h1_def new_reference_def)
  have pl: "place h1 (new_reference pad) port sp ang = (r, pin)"
    using place_heap_cong [OF h1pad] by (simp add: r_def pin_def)
  define h2 where "h2 = h1[c := set_child (h1 ! c) (length (references (h ! c))) (Instance r)]"
  have h2eq: "h2 = h[c := (h ! c)\<lparr>references := references (h ! c) @ [Instance r]\<rparr>]"
    using c by (simp add: h2_def h1_def add_child_def set_child_def)
  have par: "parent r = pad" by (simp add: r_def new_reference_def)
  have rp: "\<And>hh. hh ! pad = h ! pad \<Longrightarrow> reference_ports hh r = reference_ports h r"
    using par by (simp add: reference_ports_def)
  have h2pad: "h2 ! pad = h ! pad" and h2cmp: "h2 ! component = h ! component"
    and h2c: "h2 ! c = (h ! c)\<lparr>references := references (h ! c) @ [Instance r]\<rparr>"
    and h2len: "c < length h2"
    using c pc cc by (simp_all add: h2eq)
  have expose: "\<exists>q. map_of (ports (h ! pad)) ''pad'' = Some q \<and>
      h' = hh[c := (hh ! c)\<lparr>ports := ports (hh ! c) @
                [(pad_port_name (component.name (h ! component)) i,
                  (move_port (origin_x r) (origin_y r) q)
                     \<lparr>port.name := pad_port_name (component.name (h ! component)) i\<rparr>)]\<rparr>]"
    if q: "dict_getitem (reference_ports hh r) ''pad'' = Inr q'"
      and c': "add_port (hh ! c) q' (pad_port_name (component.name (hh ! component)) i) = Inr c'"
      and h': "h' = hh[c := c']" and hp: "hh ! pad = h ! pad" and hc: "hh ! component = h ! component"
    for hh q' c'
  proof -
    from q have "map_of (reference_ports h r) ''pad'' = Some q'"
      by (simp add: dict_getitem_def rp [OF hp] split: option.splits)
    then obtain q where q0: "map_of (ports (h ! pad)) ''pad'' = Some q"
      and q': "q' = move_port (origin_x r) (origin_y r) q"
      by (auto simp: map_of_reference_ports par)
    from c' have "c' = (hh ! c)\<lparr>ports := ports (hh ! c) @
                [(pad_port_name (component.name (h ! component)) i,
                  q'\<lparr>port.name := pad_port_name (component.name (h ! component)) i\<rparr>)]\<rparr>"
      by (simp add: add_port_def hc split: if_splits)
    with q0 q' h' show ?thesis by simp
  qed
  show ?thesis
  proof (cases pin)
    case None
    then have ang: "ang \<notin> {0, 90, 180, 270}"
      unfolding pin_def place_def by (auto split: if_splits)
    from run None pl obtain q' c' where
      q: "dict_getitem (reference_ports h2 r) ''pad'' = Inr q'"
      and c': "add_port (h2 ! c) q' (pad_port_name (component.name (h2 ! component)) i) = Inr c'"
      and h': "h' = h2[c := c']"
      unfolding loop_body_def Let_def h1_def [symmetric]
      by (auto simp: h2_def split: sum.splits)
    from expose [OF q c' h' h2pad h2cmp] obtain q where
      q0: "map_of (ports (h ! pad)) ''pad'' = Some q" and
      e: "h' = h2[c := (h2 ! c)\<lparr>ports := ports (h2 ! c) @
                [(pad_port_name (component.name (h ! component)) i,
                  (move_port (origin_x r) (origin_y r) q)
                     \<lparr>port.name := pad_port_name (component.name (h ! component)) i\<rparr>)]\<rparr>]"
      by blast
    show ?thesis
      apply (rule exI [of _ q], rule exI [of _ "[]"])
      using q0 ang e c by (simp add: h2eq r_def exposed_def placed_def)
  next
    case (Some e)
    then have ang: "ang \<in> {0, 90, 180, 270}"
      unfolding pin_def place_def by (auto split: if_splits)
    from run Some pl obtain pn q' c' where
      pn: "dict_getitem (reference_ports h2 r) e = Inr pn"
      and q: "dict_getitem (reference_ports (h2[c := add_child (h2 ! c) (route_quad port pn layer)]) r) ''pad'' = Inr q'"
      and c': "add_port (h2[c := add_child (h2 ! c) (route_quad port pn layer)] ! c) q'
           (pad_port_name (component.name (h2[c := add_child (h2 ! c) (route_quad port pn layer)] ! component)) i) = Inr c'"
      and h': "h' = h2[c := add_child (h2 ! c) (route_quad port pn layer), c := c']"
      unfolding loop_body_def Let_def h1_def [symmetric]
      by (auto simp: h2_def split: sum.splits)
    define h3 where "h3 = h2[c := add_child (h2 ! c) (route_quad port pn layer)]"
    have h3pad: "h3 ! pad = h ! pad" and h3cmp: "h3 ! component = h ! component"
      using pc cc h2pad h2cmp by (simp_all add: h3_def)
    from expose [OF q [folded h3_def] c' [folded h3_def] h' [folded h3_def] h3pad h3cmp] obtain q where
      q0: "map_of (ports (h ! pad)) ''pad'' = Some q" and
      e: "h' = h3[c := (h3 ! c)\<lparr>ports := ports (h3 ! c) @
                [(pad_port_name (component.name (h ! component)) i,
                  (move_port (origin_x r) (origin_y r) q)
                     \<lparr>port.name := pad_port_name (component.name (h ! component)) i\<rparr>)]\<rparr>]"
      by blast
    show ?thesis
      apply (rule exI [of _ q], rule exI [of _ "[route_quad port pn layer]"])
      using q0 ang e c by (simp add: h3_def h2eq r_def add_child_def route_quad_def exposed_def placed_def)
  qed
qed

lemma placed_heap_cong: "h1 ! pad = h ! pad \<Longrightarrow> placed h1 pad port sp ang = placed h pad port sp ang"
  unfolding placed_def using place_heap_cong [of h1 "new_reference pad" h port sp ang]
  by (simp add: new_reference_def)

lemma pad_ports_heap_cong:
  "h1 ! pad = h ! pad \<Longrightarrow> pad_ports h1 pad n sp ang q i ps = pad_ports h pad n sp ang q i ps"
  by (induction ps arbitrary: i) (simp_all add: placed_heap_cong [of h1 pad h])


lemma pads_loop_Inr:
  assumes "pads_loop h c component pad sp ang layer i ps = Inr h'"
      and "c < length h" and "pad \<noteq> c" and "component \<noteq> c"
  shows "length h' = length h \<and> (\<forall>a. a \<noteq> c \<longrightarrow> h' ! a = h ! a) \<and>
         (\<exists>q. (ps = [] \<or> map_of (ports (h ! pad)) ''pad'' = Some q) \<and>
            ports (h' ! c) = ports (h ! c) @ pad_ports h pad (component.name (h ! component)) sp ang q i ps) \<and>
         instances (references (h' ! c)) =
            instances (references (h ! c)) @ map (\<lambda>port. placed h pad port sp ang) ps \<and>
         length (routes (references (h' ! c))) =
            length (routes (references (h ! c))) + (if ang \<in> {0, 90, 180, 270} then length ps else 0)"
  using assms
proof (induction ps arbitrary: h i)
  case Nil
  then show ?case by simp
next
  case (Cons port rest)
  from Cons.prems(1) obtain h1 where
    b: "loop_body h c component pad sp ang layer i port = Inr h1"
    and r: "pads_loop h1 c component pad sp ang layer (Suc i) rest = Inr h'"
    by (auto split: sum.splits)
  from loop_body_Inr [OF b Cons.prems(2-4)] obtain q rs where
    q: "map_of (ports (h ! pad)) ''pad'' = Some q"
    and rs: "instances rs = []" "length (routes rs) = (if ang \<in> {0, 90, 180, 270} then 1 else 0)"
    and len: "length h1 = length h" and fr: "\<forall>a. a \<noteq> c \<longrightarrow> h1 ! a = h ! a"
    and po: "ports (h1 ! c) = ports (h ! c) @ [exposed (component.name (h ! component)) (placed h pad port sp ang) q i]"
    and re: "references (h1 ! c) = references (h ! c) @ Instance (placed h pad port sp ang) # rs"
    by blast
  have h1pad: "h1 ! pad = h ! pad" and h1cmp: "h1 ! component = h ! component"
    using fr Cons.prems by simp_all
  have c1: "c < length h1" using len Cons.prems by simp
  have pl: "\<And>p. placed h1 pad p sp ang = placed h pad p sp ang"
    by (rule placed_heap_cong [OF h1pad])
  have pp: "\<And>q j. pad_ports h1 pad (component.name (h ! component)) sp ang q j rest
              = pad_ports h pad (component.name (h ! component)) sp ang q j rest"
    by (rule pad_ports_heap_cong [OF h1pad])
  note IH = Cons.IH [OF r c1 Cons.prems(3,4)]
  from IH have len': "length h' = length h" and fr': "\<forall>a. a \<noteq> c \<longrightarrow> h' ! a = h ! a"
    using len fr by simp_all
  from IH obtain q' where
    q': "rest = [] \<or> map_of (ports (h ! pad)) ''pad'' = Some q'"
    and po': "ports (h' ! c) = ports (h1 ! c) @ pad_ports h pad (component.name (h ! component)) sp ang q' (Suc i) rest"
    unfolding h1pad h1cmp pp by blast
  have po'': "ports (h' ! c) = ports (h1 ! c) @ pad_ports h pad (component.name (h ! component)) sp ang q (Suc i) rest"
    using q' po' q by (cases rest) auto
  from IH have ins: "instances (references (h' ! c)) =
            instances (references (h1 ! c)) @ map (\<lambda>port. placed h pad port sp ang) rest"
    unfolding pl by blast
  from IH have rts: "length (routes (references (h' ! c))) =
            length (routes (references (h1 ! c))) + (if ang \<in> {0, 90, 180, 270} then length rest else 0)"
    by blast
  have A: "ports (h' ! c) = ports (h ! c) @ pad_ports h pad (component.name (h ! component)) sp ang q i (port # rest)"
    using po po'' by simp
  have B: "instances (references (h' ! c)) =
            instances (references (h ! c)) @ map (\<lambda>port. placed h pad port sp ang) (port # rest)"
    using ins re rs(1) by simp
  have C: "length (routes (references (h' ! c))) =
            length (routes (references (h ! c))) + (if ang \<in> {0, 90, 180, 270} then length (port # rest) else 0)"
    using rts re rs(2) by simp
  show ?case using len' fr' q A B C by blast
qed


lemma add_ports_Inr:
  assumes "add_ports c ps = Inr c'"
  shows "ports c' = ports c @ map (\<lambda>p. (port.name p, p)) ps \<and>
         references c' = references c \<and>
         distinct (map port.name ps) \<and>
         port.name ` set ps \<inter> fst ` set (ports c) = {}"
  using assms
proof (induction ps arbitrary: c)
  case Nil
  then show ?case by simp
next
  case (Cons p ps)
  from Cons.prems obtain c1 where
    a: "add_port c p (port.name p) = Inr c1" and r: "add_ports c1 ps = Inr c'"
    by (auto split: sum.splits)
  from a have fresh: "port.name p \<notin> fst ` set (ports c)"
    and p1: "ports c1 = ports c @ [(port.name p, p)]"
    and r1: "references c1 = references c"
    by (auto simp: add_port_def split: if_splits)
  from Cons.IH [OF r] have
    i1: "ports c' = ports c1 @ map (\<lambda>p. (port.name p, p)) ps"
    and i2: "references c' = references c1"
    and i3: "distinct (map port.name ps)"
    and i4: "port.name ` set ps \<inter> fst ` set (ports c1) = {}"
    by blast+
  have "port.name p \<notin> port.name ` set ps"
    using i4 p1 by auto
  moreover have "port.name ` set ps \<inter> fst ` set (ports c) = {}"
    using i4 p1 by auto
  ultimately show ?case
    using fresh p1 r1 i1 i2 i3 by auto
qed

lemma pop_loop_Inr:
  assumes "pop_loop h c ps = Inr h'" and "c < length h"
  shows "length h' = length h \<and> (\<forall>a. a \<noteq> c \<longrightarrow> h' ! a = h ! a) \<and>
         ports (h' ! c) = filter (\<lambda>(k, p). k \<notin> port.name ` set ps) (ports (h ! c)) \<and>
         references (h' ! c) = references (h ! c) \<and>
         distinct (map port.name ps) \<and>
         port.name ` set ps \<subseteq> fst ` set (ports (h ! c))"
  using assms
proof (induction ps arbitrary: h)
  case Nil
  then show ?case by simp
next
  case (Cons p ps)
  from Cons.prems obtain c1 where
    a: "ports_pop (h ! c) (port.name p) = Inr c1" and r: "pop_loop (h[c := c1]) c ps = Inr h'"
    by (auto split: sum.splits)
  from a have inn: "port.name p \<in> fst ` set (ports (h ! c))"
    and p1: "ports c1 = filter (\<lambda>(k, q). k \<noteq> port.name p) (ports (h ! c))"
    and r1: "references c1 = references (h ! c)"
    by (auto simp: ports_pop_def split: if_splits)
  have c1: "c < length (h[c := c1])" using Cons.prems by simp
  from Cons.IH [OF r c1] Cons.prems(2) have
    i0: "length h' = length h" and i0': "\<forall>a. a \<noteq> c \<longrightarrow> h' ! a = h ! a"
    and i1: "ports (h' ! c) = filter (\<lambda>(k, p). k \<notin> port.name ` set ps) (ports c1)"
    and i2: "references (h' ! c) = references c1"
    and i3: "distinct (map port.name ps)"
    and i4: "port.name ` set ps \<subseteq> fst ` set (ports c1)"
    by simp_all
  have notin: "port.name p \<notin> port.name ` set ps"
    using i4 p1 by auto
  have sub: "port.name ` set ps \<subseteq> fst ` set (ports (h ! c))"
    using i4 p1 by auto
  have "ports (h' ! c) = filter (\<lambda>(k, q). k \<notin> port.name ` set (p # ps)) (ports (h ! c))"
    unfolding i1 p1 filter_filter by (rule filter_cong) auto
  then show ?case
    using i0 i0' i2 r1 i3 notin sub inn by simp
qed


lemma move_port_0 [simp]: "move_port 0 0 p = p"
  by (simp add: move_port_def)

lemma reference_ports_new: "reference_ports h (new_reference a) = ports (h ! a)"
  by (simp add: reference_ports_def new_reference_def)

lemma run_Inr:
  assumes run: "add_electrical_pads_shortest h component pad d select_ports port_names ang layer
                  = Inr (h', c)"
  defines "S \<equiv> selected_ports h component select_ports"
  shows "component < length h \<and> pad < length h \<and> c = length h \<and> length h' = Suc (length h) \<and>
         (\<forall>a < length h. h' ! a = h ! a)"
    and "port_names = None \<or> port_names = Some []"
    and "\<exists>xsize q. map_of (info (h ! pad)) ''xsize'' = Some xsize \<and>
            (S = [] \<or> map_of (ports (h ! pad)) ''pad'' = Some q) \<and>
            ports (h' ! c) = filter (\<lambda>(k, p). k \<notin> port.name ` set S)
               (pad_ports h pad (component.name (h ! component)) (d + xsize / 2) ang q 0 S @
                map (\<lambda>p. (port.name p, p)) (map snd (ports (h ! component)))) \<and>
            port.name ` set S \<subseteq> fst ` set
               (pad_ports h pad (component.name (h ! component)) (d + xsize / 2) ang q 0 S @
                map (\<lambda>p. (port.name p, p)) (map snd (ports (h ! component)))) \<and>
            port.name ` snd ` set (ports (h ! component)) \<inter>
              fst ` set (pad_ports h pad (component.name (h ! component)) (d + xsize / 2) ang q 0 S) = {} \<and>
            instances (references (h' ! c)) =
               new_reference component # map (\<lambda>port. placed h pad port (d + xsize / 2) ang) S"
    and "distinct (map port.name S)"
    and "distinct (map port.name (map snd (ports (h ! component))))"
    and "length (routes (references (h' ! c))) = (if ang \<in> {0, 90, 180, 270} then length S else 0)"
    and "info (h' ! c) = info (h ! component)"
proof -
  from run have valid: "component < length h" "pad < length h"
    by (auto simp: add_electrical_pads_shortest_def split: if_splits)
  define h2 where "h2 = (h @ [Component_new])[length h := add_child ((h @ [Component_new]) ! length h)
                           (Instance (new_reference component))]"
  have h2old: "\<And>a. a < length h \<Longrightarrow> h2 ! a = h ! a"
    by (simp add: h2_def nth_append)
  have h2c: "h2 ! length h = add_child Component_new (Instance (new_reference component))"
    by (simp add: h2_def)
  have h2len: "length h2 = Suc (length h)" by (simp add: h2_def)
  have rp: "reference_ports h2 (new_reference component) = ports (h ! component)"
    using valid by (simp add: reference_ports_new h2old)
  from run valid have r1:
    "(case select h2 (new_reference component) select_ports port_names of
        Inl err \<Rightarrow> Inl err
      | Inr sel \<Rightarrow>
     (case values_list sel of
        Inl err \<Rightarrow> Inl err
      | Inr sel_ports \<Rightarrow>
     (case dict_getitem (info (h2 ! pad)) ''xsize'' of
        Inl err \<Rightarrow> Inl err
      | Inr xsize \<Rightarrow>
     (case pads_loop h2 (length h) component pad (d + xsize / 2) ang layer 0 sel_ports of
        Inl err \<Rightarrow> Inl err
      | Inr h3 \<Rightarrow>
     (case add_ports (h3 ! length h) (map snd (reference_ports h3 (new_reference component))) of
        Inl err \<Rightarrow> Inl err
      | Inr c4 \<Rightarrow>
     (case pop_loop (h3[length h := c4]) (length h) sel_ports of
        Inl err \<Rightarrow> Inl err
      | Inr h5 \<Rightarrow> Inr (h5[length h := copy_child_info (h5 ! length h) (h5 ! component)], length h)))))))
     = Inr (h', c)"
    unfolding add_electrical_pads_shortest_def Let_def h2_def [symmetric] by simp
  then obtain sel where
    s1: "select h2 (new_reference component) select_ports port_names = Inr sel"
    by (cases "select h2 (new_reference component) select_ports port_names") simp_all
  note r2 = r1 [unfolded s1 sum.case]
  then obtain sel_ports where s2: "values_list sel = Inr sel_ports"
    by (cases "values_list sel") simp_all
  note r3 = r2 [unfolded s2 sum.case]
  then obtain xsize where s3: "dict_getitem (info (h2 ! pad)) ''xsize'' = Inr xsize"
    by (cases "dict_getitem (info (h2 ! pad)) ''xsize''") simp_all
  note r4 = r3 [unfolded s3 sum.case]
  then obtain h3 where
    s4: "pads_loop h2 (length h) component pad (d + xsize / 2) ang layer 0 sel_ports = Inr h3"
    by (cases "pads_loop h2 (length h) component pad (d + xsize / 2) ang layer 0 sel_ports") simp_all
  note r5 = r4 [unfolded s4 sum.case]
  then obtain c4 where
    s5: "add_ports (h3 ! length h) (map snd (reference_ports h3 (new_reference component))) = Inr c4"
    by (cases "add_ports (h3 ! length h) (map snd (reference_ports h3 (new_reference component)))") simp_all
  note r6 = r5 [unfolded s5 sum.case]
  then obtain h5 where
    s6: "pop_loop (h3[length h := c4]) (length h) sel_ports = Inr h5"
    by (cases "pop_loop (h3[length h := c4]) (length h) sel_ports") simp_all
  note r7 = r6 [unfolded s6 sum.case]
  then have s7: "h' = h5[length h := copy_child_info (h5 ! length h) (h5 ! component)]"
    and cc: "c = length h"
    by auto
  have pn: "port_names = None \<or> port_names = Some []"
    and sel: "sel = PortDict (select_ports (ports (h ! component)))"
    using s1 s2 rp by (cases port_names; cases "the port_names"; auto split: sum.splits)+
  have sp: "sel_ports = S"
    using s2 sel by (auto simp: S_def selected_ports_def reference_ports_new)
  have xs: "map_of (info (h ! pad)) ''xsize'' = Some xsize"
    using s3 valid by (simp add: dict_getitem_def h2old split: option.splits)
  have c2: "length h < length h2" by (simp add: h2len)
  have ne: "pad \<noteq> length h" "component \<noteq> length h" using valid by simp_all
  have h2pad: "h2 ! pad = h ! pad" and h2cmp: "h2 ! component = h ! component"
    using valid by (simp_all add: h2old)
  note L = pads_loop_Inr [OF s4 c2 ne, unfolded sp h2cmp]
  from L have l3: "length h3 = Suc (length h)" and f3: "\<forall>a. a \<noteq> length h \<longrightarrow> h3 ! a = h2 ! a"
    by (simp_all add: h2len)
  from L obtain q where q: "S = [] \<or> map_of (ports (h ! pad)) ''pad'' = Some q"
    and p3: "ports (h3 ! length h) =
              pad_ports h pad (component.name (h ! component)) (d + xsize / 2) ang q 0 S"
    unfolding h2pad pad_ports_heap_cong [OF h2pad] h2c
    by (auto simp: add_child_def Component_new_def)
  from L have i3: "instances (references (h3 ! length h)) =
       new_reference component # map (\<lambda>port. placed h pad port (d + xsize / 2) ang) S"
    unfolding placed_heap_cong [OF h2pad] h2c
    by (simp add: add_child_def Component_new_def)
  from L have r3: "length (routes (references (h3 ! length h))) =
       (if ang \<in> {0, 90, 180, 270} then length S else 0)"
    unfolding h2c by (simp add: add_child_def Component_new_def)
  have h3cmp: "h3 ! component = h ! component"
    using f3 ne h2cmp by simp
  have rp3: "reference_ports h3 (new_reference component) = ports (h ! component)"
    by (simp add: reference_ports_new h3cmp)
  note A = add_ports_Inr [OF s5, unfolded rp3 p3]
  define new where "new = pad_ports h pad (component.name (h ! component)) (d + xsize / 2) ang q 0 S"
  define old where "old = map (\<lambda>p. (port.name p, p)) (map snd (ports (h ! component)))"
  from A have p4: "ports c4 = new @ old" and r4: "references c4 = references (h3 ! length h)"
    and d4: "distinct (map port.name (map snd (ports (h ! component))))"
    and x4: "port.name ` snd ` set (ports (h ! component)) \<inter> fst ` set new = {}"
    by (simp_all add: new_def old_def)
  have c3: "length h < length (h3[length h := c4])" by (simp add: l3)
  note P = pop_loop_Inr [OF s6 c3, unfolded sp]
  from P have l5: "length h5 = Suc (length h)"
    and f5: "\<forall>a. a \<noteq> length h \<longrightarrow> h5 ! a = h3 ! a"
    and p5: "ports (h5 ! length h) = filter (\<lambda>(k, p). k \<notin> port.name ` set S) (new @ old)"
    and r5: "references (h5 ! length h) = references (h3 ! length h)"
    and d5: "distinct (map port.name S)"
    and x5: "port.name ` set S \<subseteq> fst ` set (new @ old)"
    using l3 p4 r4 by simp_all
  have h5cmp: "h5 ! component = h ! component"
    using f5 ne h3cmp by simp
  have lh': "length h' = Suc (length h)" by (simp add: s7 l5)
  have fr: "\<forall>a < length h. h' ! a = h ! a"
    using f5 f3 by (simp add: s7 h2old)
  have hc: "h' ! length h = copy_child_info (h5 ! length h) (h ! component)"
    by (simp add: s7 l5 h5cmp)
  have ph: "ports (h' ! c) = filter (\<lambda>(k, p). k \<notin> port.name ` set S) (new @ old)"
    and rh: "references (h' ! c) = references (h3 ! length h)"
    and ih: "info (h' ! c) = info (h ! component)"
    by (simp_all add: cc hc copy_child_info_def p5 r5)
  show "component < length h \<and> pad < length h \<and> c = length h \<and> length h' = Suc (length h) \<and>
         (\<forall>a < length h. h' ! a = h ! a)"
    using valid cc lh' fr by simp
  show "port_names = None \<or> port_names = Some []" by (rule pn)
  show "\<exists>xsize q. map_of (info (h ! pad)) ''xsize'' = Some xsize \<and>
            (S = [] \<or> map_of (ports (h ! pad)) ''pad'' = Some q) \<and>
            ports (h' ! c) = filter (\<lambda>(k, p). k \<notin> port.name ` set S)
               (pad_ports h pad (component.name (h ! component)) (d + xsize / 2) ang q 0 S @
                map (\<lambda>p. (port.name p, p)) (map snd (ports (h ! component)))) \<and>
            port.name ` set S \<subseteq> fst ` set
               (pad_ports h pad (component.name (h ! component)) (d + xsize / 2) ang q 0 S @
                map (\<lambda>p. (port.name p, p)) (map snd (ports (h ! component)))) \<and>
            port.name ` snd ` set (ports (h ! component)) \<inter>
              fst ` set (pad_ports h pad (component.name (h ! component)) (d + xsize / 2) ang q 0 S) = {} \<and>
            instances (references (h' ! c)) =
               new_reference component # map (\<lambda>port. placed h pad port (d + xsize / 2) ang) S"
    apply (rule exI [of _ xsize], rule exI [of _ q])
    using xs q ph x5 x4 rh i3 unfolding new_def old_def by simp
  show "distinct (map port.name S)" by (rule d5)
  show "distinct (map port.name (map snd (ports (h ! component))))" by (rule d4)
  show "length (routes (references (h' ! c))) = (if ang \<in> {0, 90, 180, 270} then length S else 0)"
    using r3 rh by simp
  show "info (h' ! c) = info (h ! component)" by (rule ih)
qed

lemma resolve_names_eq:
  "resolve_names h r ns =
     (if set ns \<subseteq> fst ` set (reference_ports h r)
      then Inr (map (\<lambda>n. the (map_of (reference_ports h r) n)) ns) else Inl LookupError)"
proof (induction ns)
  case Nil
  then show ?case by simp
next
  case (Cons n ns)
  show ?case
  proof (cases "map_of (reference_ports h r) n")
    case None
    then have "n \<notin> fst ` set (reference_ports h r)"
      by (simp add: map_of_eq_None_iff)
    with None show ?thesis by (simp add: reference_getitem_def)
  next
    case (Some p)
    then have "n \<in> fst ` set (reference_ports h r)"
      by (metis map_of_eq_None_iff option.distinct(1))
    with Some Cons.IH show ?thesis by (simp add: reference_getitem_def)
  qed
qed

lemma select_names:
  "ns \<noteq> [] \<Longrightarrow> select h r sp (Some ns) =
     (if set ns \<subseteq> fst ` set (reference_ports h r)
      then Inr (PortList (map (\<lambda>n. the (map_of (reference_ports h r) n)) ns)) else Inl LookupError)"
  by (cases ns) (simp_all add: resolve_names_eq del: resolve_names.simps)

lemma run_names:
  assumes "ns \<noteq> []" and "component < length h" and "pad < length h"
  shows "add_electrical_pads_shortest h component pad d sp (Some ns) ang layer =
           (if set ns \<subseteq> fst ` set (ports (h ! component)) then Inl AttributeError
            else Inl LookupError)"
proof -
  define h2 where "h2 = (h @ [Component_new])[length h := add_child ((h @ [Component_new]) ! length h)
                           (Instance (new_reference component))]"
  have rp: "reference_ports h2 (new_reference component) = ports (h ! component)"
    using assms(2) by (simp add: reference_ports_new h2_def nth_append)
  show ?thesis
    unfolding add_electrical_pads_shortest_def Let_def h2_def [symmetric]
    using assms by (simp add: select_names rp)
qed


lemma map_fst_pad_ports:
  "map fst (pad_ports h pad n sp ang q i ps) = map (pad_port_name n) [i..<i + length ps]"
proof (induction ps arbitrary: i)
  case Nil
  then show ?case by simp
next
  case (Cons p ps)
  have a: "[i..<Suc i + length ps] = i # [Suc i..<Suc i + length ps]"
    by (rule upt_conv_Cons) simp
  have b: "i + length (p # ps) = Suc i + length ps" by simp
  have "map fst (pad_ports h pad n sp ang q i (p # ps)) =
          pad_port_name n i # map fst (pad_ports h pad n sp ang q (Suc i) ps)"
    by (simp add: exposed_def)
  also have "\<dots> = pad_port_name n i # map (pad_port_name n) [Suc i..<Suc i + length ps]"
    by (simp only: Cons.IH)
  also have "\<dots> = map (pad_port_name n) (i # [Suc i..<Suc i + length ps])"
    by (simp only: list.map)
  also have "i # [Suc i..<Suc i + length ps] = [i..<i + length (p # ps)]"
    unfolding b by (rule a [symmetric])
  finally show ?case .
qed

lemma length_pad_ports [simp]: "length (pad_ports h pad n sp ang q i ps) = length ps"
  by (induction ps arbitrary: i) simp_all

lemma nth_pad_ports:
  "k < length ps \<Longrightarrow>
   pad_ports h pad n sp ang q i ps ! k = exposed n (placed h pad (ps ! k) sp ang) q (i + k)"
proof (induction ps arbitrary: i k)
  case Nil
  then show ?case by simp
next
  case (Cons p ps)
  then show ?case by (cases k) simp_all
qed

lemma keyed_dict:
  "\<forall>(k, p) \<in> set d. port.name p = k \<Longrightarrow> map (\<lambda>p. (port.name p, p)) (map snd d) = d"
  by (induction d) auto

lemma keyed_names:
  "\<forall>(k, p) \<in> set d. port.name p = k \<Longrightarrow> map port.name (map snd d) = map fst d"
  by (induction d) auto

lemma filter_keys:
  "map fst (filter (\<lambda>(k, p). k \<notin> A) d) = filter (\<lambda>k. k \<notin> A) (map fst d)"
  by (induction d) auto

lemma length_filter_removed:
  assumes "distinct (map fst d)" and "distinct ns" and "set ns \<subseteq> fst ` set d"
  shows "length (filter (\<lambda>(k, p). k \<notin> set ns) d) + length ns = length d"
proof -
  define ks where "ks = map fst d"
  have d: "distinct ks" and s: "set ns \<subseteq> set ks"
    using assms by (simp_all add: ks_def)
  have "length (filter (\<lambda>(k, p). k \<notin> set ns) d) = length (filter (\<lambda>k. k \<notin> set ns) ks)"
    using arg_cong [OF filter_keys [of "set ns" d], of length] by (simp add: ks_def)
  also have "\<dots> = card (set (filter (\<lambda>k. k \<notin> set ns) ks))"
    using d by (simp only: distinct_card [OF distinct_filter])
  also have "set (filter (\<lambda>k. k \<notin> set ns) ks) = set ks - set ns"
    by auto
  also have "card (set ks - set ns) = card (set ks) - card (set ns)"
    using s by (simp add: card_Diff_subset)
  also have "card (set ks) = length ks"
    using d by (rule distinct_card)
  also have "card (set ns) = length ns"
    using assms(2) by (rule distinct_card)
  finally have e: "length (filter (\<lambda>(k, p). k \<notin> set ns) d) = length ks - length ns" .
  have "card (set ns) \<le> card (set ks)"
    using s by (intro card_mono) simp_all
  then have "length ns \<le> length ks"
    using d assms(2) by (simp add: distinct_card)
  with e show ?thesis by (simp add: ks_def)
qed

lemma filter_keys_id: "fst ` set d \<inter> A = {} \<Longrightarrow> filter (\<lambda>(k, p). k \<notin> A) d = d"
  by (induction d) auto

lemma keys_filter_disjoint: "fst ` set (filter (\<lambda>(k, p). k \<notin> A) d) \<inter> A = {}"
  by (induction d) auto

lemma disjoint_subset: "C \<inter> A = {} \<Longrightarrow> B \<subseteq> C \<Longrightarrow> A \<inter> B = {}"
  by blast

lemma disjoint_append:
  "fst ` set xs \<inter> B = {} \<Longrightarrow> fst ` set ys \<inter> B = {} \<Longrightarrow> B \<inter> fst ` set (xs @ ys) = {}"
  by (simp add: image_Un Int_Un_distrib Int_commute)

lemma run_ports:
  assumes run: "add_electrical_pads_shortest h component pad d select_ports port_names ang layer
                  = Inr (h', c)"
      and keyed: "\<forall>(k, p) \<in> set (ports (h ! component)). port.name p = k"
      and sub: "set (selected_ports h component select_ports) \<subseteq> snd ` set (ports (h ! component))"
  shows "\<exists>xsize q. map_of (info (h ! pad)) ''xsize'' = Some xsize \<and>
            (selected_ports h component select_ports = [] \<or> map_of (ports (h ! pad)) ''pad'' = Some q) \<and>
            ports (h' ! c) =
              pad_ports h pad (component.name (h ! component)) (d + xsize / 2) ang q 0
                 (selected_ports h component select_ports) @
              filter (\<lambda>(k, p). k \<notin> port.name ` set (selected_ports h component select_ports))
                 (ports (h ! component)) \<and>
            fst ` set (pad_ports h pad (component.name (h ! component)) (d + xsize / 2) ang q 0
                 (selected_ports h component select_ports)) \<inter> fst ` set (ports (h ! component)) = {} \<and>
            instances (references (h' ! c)) =
               new_reference component #
               map (\<lambda>port. placed h pad port (d + xsize / 2) ang) (selected_ports h component select_ports)"
    and "length (ports (h' ! c)) = length (ports (h ! component))"
    and "port.name ` set (selected_ports h component select_ports) \<inter> fst ` set (ports (h' ! c)) = {}"
proof -
  define S where "S = selected_ports h component select_ports"
  define P where "P = ports (h ! component)"
  from run_Inr(3) [OF run] obtain xsize q where
    xs: "map_of (info (h ! pad)) ''xsize'' = Some xsize"
    and q: "S = [] \<or> map_of (ports (h ! pad)) ''pad'' = Some q"
    and po: "ports (h' ! c) = filter (\<lambda>(k, p). k \<notin> port.name ` set S)
               (pad_ports h pad (component.name (h ! component)) (d + xsize / 2) ang q 0 S @
                map (\<lambda>p. (port.name p, p)) (map snd P))"
    and sb: "port.name ` set S \<subseteq> fst ` set
               (pad_ports h pad (component.name (h ! component)) (d + xsize / 2) ang q 0 S @
                map (\<lambda>p. (port.name p, p)) (map snd P))"
    and dj: "port.name ` snd ` set P \<inter>
              fst ` set (pad_ports h pad (component.name (h ! component)) (d + xsize / 2) ang q 0 S) = {}"
    and ins: "instances (references (h' ! c)) =
               new_reference component # map (\<lambda>port. placed h pad port (d + xsize / 2) ang) S"
    unfolding S_def [symmetric] P_def [symmetric] by (elim exE conjE) (rule that)
  have dS: "distinct (map port.name S)" and dP: "distinct (map port.name (map snd P))"
    using run_Inr(4,5) [OF run] by (simp_all add: S_def P_def)
  define new where "new = pad_ports h pad (component.name (h ! component)) (d + xsize / 2) ang q 0 S"
  have old: "map (\<lambda>p. (port.name p, p)) (map snd P) = P"
    unfolding P_def by (rule keyed_dict [OF keyed])
  have namesP: "port.name ` snd ` set P = fst ` set P"
    using arg_cong [OF keyed_names [OF keyed], of set] by (simp add: P_def image_image)
  have sub': "set S \<subseteq> snd ` set P"
    using sub by (simp only: S_def P_def)
  have SP: "port.name ` set S \<subseteq> fst ` set P"
    using image_mono [OF sub', of port.name] by (simp only: namesP)
  have dj': "fst ` set new \<inter> port.name ` set S = {}"
    by (rule disjoint_subset [OF dj [unfolded namesP, folded new_def] SP])
  have dj'': "fst ` set new \<inter> fst ` set P = {}"
    using dj [unfolded namesP, folded new_def] by (simp only: Int_commute)
  have po': "ports (h' ! c) = new @ filter (\<lambda>(k, p). k \<notin> port.name ` set S) P"
    unfolding po old new_def [symmetric] filter_append filter_keys_id [OF dj'] ..
  have dP': "distinct (map fst P)"
    using dP unfolding P_def keyed_names [OF keyed] .
  have SP': "set (map port.name S) \<subseteq> fst ` set P"
    using SP by simp
  have "length (filter (\<lambda>(k, p). k \<notin> set (map port.name S)) P) + length (map port.name S) = length P"
    by (rule length_filter_removed [OF dP' dS SP'])
  then have len: "length (ports (h' ! c)) = length P"
    by (simp add: po' new_def)
  have dis: "port.name ` set S \<inter> fst ` set (ports (h' ! c)) = {}"
    unfolding po' by (rule disjoint_append [OF dj' keys_filter_disjoint])
  show "\<exists>xsize q. map_of (info (h ! pad)) ''xsize'' = Some xsize \<and>
            (selected_ports h component select_ports = [] \<or> map_of (ports (h ! pad)) ''pad'' = Some q) \<and>
            ports (h' ! c) =
              pad_ports h pad (component.name (h ! component)) (d + xsize / 2) ang q 0
                 (selected_ports h component select_ports) @
              filter (\<lambda>(k, p). k \<notin> port.name ` set (selected_ports h component select_ports))
                 (ports (h ! component)) \<and>
            fst ` set (pad_ports h pad (component.name (h ! component)) (d + xsize / 2) ang q 0
                 (selected_ports h component select_ports)) \<inter> fst ` set (ports (h ! component)) = {} \<and>
            instances (references (h' ! c)) =
               new_reference component #
               map (\<lambda>port. placed h pad port (d + xsize / 2) ang) (selected_ports h component select_ports)"
    apply (rule exI [of _ xsize], rule exI [of _ q])
    using xs q po' ins dj'' unfolding S_def P_def new_def by simp
  show "length (ports (h' ! c)) = length (ports (h ! component))"
    using len by (simp add: P_def)
  show "port.name ` set (selected_ports h component select_ports) \<inter> fst ` set (ports (h' ! c)) = {}"
    using dis by (simp add: S_def)
qed

subsection \<open>Evaluating the scenario\<close>

lemmas eval_defs = scenario_def add_electrical_pads_shortest_def Let_def Component_new_def
  new_reference_def add_child_def set_child_def reference_ports_def move_port_def
  select_ports_electrical_def mk_port_def wire_def pad20_def dict_getitem_def
  loop_body_def place_def set_x_def set_y_def reference_x_def reference_y_def
  route_quad_def add_port_def ports_pop_def copy_child_info_def pad_port_name_def

lemma str_1: "str (Suc 0) = ''1''" by (simp add: str.simps)
lemma str_2: "str (Suc (Suc 0)) = ''2''" by (simp add: str.simps)

lemma scenario_90_returns: "\<exists>h'. scenario 90 = Inr (h', 2)"
  by (simp add: eval_defs str_1 str_2)

subsection \<open>The path with explicit port names\<close>

text \<open>
  Claim C9. With a non-empty list of port names the function raises before it processes
  any port: the names are resolved to a plain list of ports, and the call of
  \<^verbatim>\<open>.values()\<close> on that list fails. The error is fixed by the names alone (a lookup
  error when one of them is missing, the attribute error otherwise), whatever the pad,
  the spacing and the orientation are, so this path never returns a component.
\<close>

theorem explicit_names_never_return:
  assumes "ns \<noteq> []"
  shows "add_electrical_pads_shortest h component pad d sp (Some ns) ang layer =
           Inl (if \<not> (component < length h \<and> pad < length h) then ValueError
                else if set ns \<subseteq> fst ` set (ports (h ! component)) then AttributeError
                else LookupError)"
proof (cases "component < length h \<and> pad < length h")
  case True
  then show ?thesis using run_names [OF assms, of component h pad] by simp
next
  case False
  then show ?thesis by (simp add: add_electrical_pads_shortest_def)
qed

text \<open>The wire of the scenario with the existing name \<^verbatim>\<open>e1\<close>.\<close>

theorem explicit_names_never_return_witness:
  "[''e1''] \<noteq> [] \<and>
   add_electrical_pads_shortest [wire, pad20] 0 1 50 select_ports_electrical (Some [''e1'']) 0 ''M3''
     = Inl AttributeError"
  using explicit_names_never_return [of "[''e1'']" "[wire, pad20]" 0 1 50 select_ports_electrical 0 "''M3''"]
  by (simp add: wire_def mk_port_def)

text \<open>
  Claim C5. When the list of port names contains a name that is not a port of the
  component, the function raises a lookup error and returns no component.
\<close>

theorem missing_name_raises_LookupError:
  assumes "n \<in> set ns" and "n \<notin> fst ` set (ports (h ! component))"
      and "component < length h" and "pad < length h"
  shows "add_electrical_pads_shortest h component pad d sp (Some ns) ang layer = Inl LookupError"
proof -
  from assms(1) have "ns \<noteq> []" by auto
  moreover from assms(1,2) have "\<not> set ns \<subseteq> fst ` set (ports (h ! component))" by auto
  ultimately show ?thesis using run_names [of ns component h pad] assms(3,4) by simp
qed

text \<open>The wire of the scenario, asked for a port it does not have.\<close>

theorem missing_name_raises_LookupError_witness:
  "''nonexistent'' \<in> set [''e1'', ''nonexistent''] \<and>
   ''nonexistent'' \<notin> fst ` set (ports ([wire, pad20] ! 0)) \<and>
   (0::nat) < length [wire, pad20] \<and> (1::nat) < length [wire, pad20] \<and>
   add_electrical_pads_shortest [wire, pad20] 0 1 50 select_ports_electrical
     (Some [''e1'', ''nonexistent'']) 90 ''M3'' = Inl LookupError"
  using missing_name_raises_LookupError [of "''nonexistent''" "[''e1'', ''nonexistent'']"
      "[wire, pad20]" 0 1 50 select_ports_electrical 90 "''M3''"]
  by (simp add: wire_def mk_port_def)

subsection \<open>The input is only read\<close>

text \<open>
  Claim C8. When the function returns, the component it was given is unchanged, and so
  are its port names and port positions; the same holds for the pad and for every other
  object that was in the store. The returned address is that of a new object.
\<close>

theorem input_not_mutated:
  assumes "add_electrical_pads_shortest h component pad d sp port_names ang layer = Inr (h', c)"
  shows "c = length h \<and> h' ! component = h ! component \<and> h' ! pad = h ! pad \<and>
         (\<forall>a < length h. h' ! a = h ! a)"
  using run_Inr [OF assms] by simp

text \<open>The scenario at the default orientation.\<close>

theorem input_not_mutated_witness:
  "\<exists>h'. scenario 90 = Inr (h', 2) \<and> h' ! 0 = wire \<and> h' ! 1 = pad20"
proof -
  from scenario_90_returns obtain h' where r: "scenario 90 = Inr (h', 2)" ..
  from input_not_mutated [OF r [unfolded scenario_def]] have "h' ! 0 = wire \<and> h' ! 1 = pad20"
    by simp
  with r show ?thesis by blast
qed

subsection \<open>Facts about placed pads and exposed ports\<close>

lemma parent_placed [simp]: "parent (placed h pad port sp ang) = pad"
  by (simp add: placed_def new_reference_def)

lemma reference_center_placed:
  "reference_center h (placed h pad port sp ang) =
     (if ang = 0 then (px port + sp, py port)
      else if ang = 180 then (px port - sp, py port)
      else if ang = 90 then (px port, py port + sp)
      else if ang = 270 then (px port, py port - sp)
      else (center_x (h ! pad), center_y (h ! pad)))"
  by (simp add: reference_center_def placed_def place_def set_x_def set_y_def
      reference_x_def reference_y_def new_reference_def)

lemma origin_placed_unsupported:
  "ang \<notin> {0, 90, 180, 270} \<Longrightarrow> placed h pad port sp ang = new_reference pad"
  by (simp add: placed_def place_def)

lemma fst_exposed [simp]: "fst (exposed n r q i) = pad_port_name n i"
  by (simp add: exposed_def)

lemma name_exposed [simp]: "port.name (snd (exposed n r q i)) = pad_port_name n i"
  by (simp add: exposed_def)

lemma center_exposed [simp]:
  "port_center (snd (exposed n r q i)) = port_center (move_port (origin_x r) (origin_y r) q)"
  by (simp add: exposed_def port_center_def)

subsection \<open>The ports of the output\<close>

text \<open>
  Claim C1. Let the component have the ports \<open>P\<close>, each stored under its own name, and
  let the selection \<open>S\<close> that the loop processes consist of ports of the component. When
  the function returns, the ports of the output are one new pad port per member of \<open>S\<close>,
  under names that no port of the component has, followed by the ports of \<open>P\<close> whose
  names are not selected; the output has as many ports as the component.
\<close>

theorem port_set_completeness:
  assumes run: "add_electrical_pads_shortest h component pad d select_ports port_names ang layer
                  = Inr (h', c)"
      and keyed: "\<forall>(k, p) \<in> set (ports (h ! component)). port.name p = k"
      and sub: "set (selected_ports h component select_ports) \<subseteq> snd ` set (ports (h ! component))"
  shows "\<exists>new. ports (h' ! c) =
            new @ filter (\<lambda>(k, p). k \<notin> port.name ` set (selected_ports h component select_ports))
                    (ports (h ! component)) \<and>
            length new = length (selected_ports h component select_ports) \<and>
            map fst new = map (pad_port_name (component.name (h ! component)))
                            [0..<length (selected_ports h component select_ports)] \<and>
            fst ` set new \<inter> fst ` set (ports (h ! component)) = {} \<and>
            length (ports (h' ! c)) = length (ports (h ! component))"
proof -
  from run_ports(1) [OF run keyed sub] obtain xsize q where
    po: "ports (h' ! c) =
              pad_ports h pad (component.name (h ! component)) (d + xsize / 2) ang q 0
                 (selected_ports h component select_ports) @
              filter (\<lambda>(k, p). k \<notin> port.name ` set (selected_ports h component select_ports))
                 (ports (h ! component))"
    and dj: "fst ` set (pad_ports h pad (component.name (h ! component)) (d + xsize / 2) ang q 0
                 (selected_ports h component select_ports)) \<inter> fst ` set (ports (h ! component)) = {}"
    by (elim exE conjE) (rule that)
  show ?thesis
    apply (rule exI [of _ "pad_ports h pad (component.name (h ! component)) (d + xsize / 2) ang q 0
                 (selected_ports h component select_ports)"])
    using po dj run_ports(2) [OF run keyed sub] map_fst_pad_ports [of h pad _ _ ang q 0]
    by simp
qed

text \<open>
  Claim C10. Whatever the value of the orientation is, one of the four or not, a run that
  gets through the loop and returns has added one reference to the pad and one pad port
  named \<^verbatim>\<open>elec-<name>-<index>\<close> per selected port, no selected name is a port of the
  output, and the output has as many ports as the input.
\<close>

theorem pads_added_whatever_the_orientation:
  assumes run: "add_electrical_pads_shortest h component pad d select_ports port_names ang layer
                  = Inr (h', c)"
      and keyed: "\<forall>(k, p) \<in> set (ports (h ! component)). port.name p = k"
      and sub: "set (selected_ports h component select_ports) \<subseteq> snd ` set (ports (h ! component))"
  shows "length (instances (references (h' ! c))) = Suc (length (selected_ports h component select_ports)) \<and>
         (\<forall>r \<in> set (tl (instances (references (h' ! c)))). parent r = pad) \<and>
         map fst (take (length (selected_ports h component select_ports)) (ports (h' ! c))) =
           map (pad_port_name (component.name (h ! component)))
             [0..<length (selected_ports h component select_ports)] \<and>
         port.name ` set (selected_ports h component select_ports) \<inter> fst ` set (ports (h' ! c)) = {} \<and>
         length (ports (h' ! c)) = length (ports (h ! component))"
proof -
  from run_ports(1) [OF run keyed sub] obtain xsize q where
    po: "ports (h' ! c) =
              pad_ports h pad (component.name (h ! component)) (d + xsize / 2) ang q 0
                 (selected_ports h component select_ports) @
              filter (\<lambda>(k, p). k \<notin> port.name ` set (selected_ports h component select_ports))
                 (ports (h ! component))"
    and ins: "instances (references (h' ! c)) =
               new_reference component #
               map (\<lambda>port. placed h pad port (d + xsize / 2) ang) (selected_ports h component select_ports)"
    by (elim exE conjE) (rule that)
  have a: "length (instances (references (h' ! c))) = Suc (length (selected_ports h component select_ports))"
    by (simp add: ins)
  have b: "\<forall>r \<in> set (tl (instances (references (h' ! c)))). parent r = pad"
    by (auto simp: ins)
  have e: "map fst (take (length (selected_ports h component select_ports)) (ports (h' ! c))) =
           map (pad_port_name (component.name (h ! component)))
             [0..<length (selected_ports h component select_ports)]"
    using map_fst_pad_ports [of h pad _ _ ang q 0] by (simp add: po)
  show ?thesis
    using a b e run_ports(2,3) [OF run keyed sub] by simp
qed

text \<open>
  Claim C6. The pad port added for the selected port number \<open>i\<close> (counting from 0, in the
  order of the selection) is stored under, and carries, the name
  \<^verbatim>\<open>elec-<source name>-<i + 1>\<close>, and it is the port \<^verbatim>\<open>pad\<close> of the pad placed for that
  selected port.
\<close>

theorem pad_port_names:
  assumes run: "add_electrical_pads_shortest h component pad d select_ports port_names ang layer
                  = Inr (h', c)"
      and keyed: "\<forall>(k, p) \<in> set (ports (h ! component)). port.name p = k"
      and sub: "set (selected_ports h component select_ports) \<subseteq> snd ` set (ports (h ! component))"
      and i: "i < length (selected_ports h component select_ports)"
  shows "fst (ports (h' ! c) ! i) = ''elec-'' @ component.name (h ! component) @ ''-'' @ str (i + 1) \<and>
         port.name (snd (ports (h' ! c) ! i)) =
           ''elec-'' @ component.name (h ! component) @ ''-'' @ str (i + 1) \<and>
         (\<exists>xsize q. map_of (info (h ! pad)) ''xsize'' = Some xsize \<and>
            map_of (ports (h ! pad)) ''pad'' = Some q \<and>
            port_center (snd (ports (h' ! c) ! i)) =
              port_center (move_port
                 (origin_x (placed h pad (selected_ports h component select_ports ! i) (d + xsize / 2) ang))
                 (origin_y (placed h pad (selected_ports h component select_ports ! i) (d + xsize / 2) ang))
                 q))"
proof -
  from run_ports(1) [OF run keyed sub] obtain xsize q where
    xs: "map_of (info (h ! pad)) ''xsize'' = Some xsize"
    and q: "selected_ports h component select_ports = [] \<or> map_of (ports (h ! pad)) ''pad'' = Some q"
    and po: "ports (h' ! c) =
              pad_ports h pad (component.name (h ! component)) (d + xsize / 2) ang q 0
                 (selected_ports h component select_ports) @
              filter (\<lambda>(k, p). k \<notin> port.name ` set (selected_ports h component select_ports))
                 (ports (h ! component))"
    by (elim exE conjE) (rule that)
  from q i have q': "map_of (ports (h ! pad)) ''pad'' = Some q" by auto
  have e: "ports (h' ! c) ! i =
          exposed (component.name (h ! component))
            (placed h pad (selected_ports h component select_ports ! i) (d + xsize / 2) ang) q i"
    using i nth_pad_ports [OF i, of h pad _ _ ang q 0] by (simp add: po nth_append)
  show ?thesis
    using xs q' by (simp add: e pad_port_name_def)
qed


subsection \<open>Examples\<close>

lemma scenario_45_returns: "\<exists>h'. scenario 45 = Inr (h', 2)"
  by (simp add: eval_defs str_1 str_2)

lemma scenario_180_returns: "\<exists>h'. scenario 180 = Inr (h', 2)"
  by (simp add: eval_defs str_1 str_2)

lemma tapped_returns:
  "\<exists>h'. add_electrical_pads_shortest [tapped_wire, pad20] 0 1 50 select_ports_electrical None 0 ''M3''
          = Inr (h', 2)"
  by (simp add: eval_defs tapped_wire_def str_1 str_2)

lemma selected_scenario:
  "selected_ports [wire, pad20] 0 select_ports_electrical = map snd (ports wire)"
  by (simp add: selected_ports_def reference_ports_def new_reference_def move_port_def
      select_ports_electrical_def wire_def mk_port_def)

lemma selected_tapped:
  "selected_ports [tapped_wire, pad20] 0 select_ports_electrical = map snd (ports wire)"
  by (simp add: selected_ports_def reference_ports_def new_reference_def move_port_def
      select_ports_electrical_def wire_def tapped_wire_def mk_port_def)

lemma keyed_wire: "\<forall>(k, p) \<in> set (ports ([wire, pad20] ! 0)). port.name p = k"
  by (simp add: wire_def mk_port_def)

lemma keyed_tapped: "\<forall>(k, p) \<in> set (ports ([tapped_wire, pad20] ! 0)). port.name p = k"
  by (simp add: wire_def tapped_wire_def mk_port_def)

text \<open>The tapped wire keeps its optical port and trades the two electrical ones for pad ports.\<close>

theorem port_set_completeness_witness:
  "\<exists>h'. add_electrical_pads_shortest [tapped_wire, pad20] 0 1 50 select_ports_electrical None 0 ''M3''
            = Inr (h', 2) \<and>
        map fst (ports (h' ! 2)) = [''elec-wire-1'', ''elec-wire-2'', ''o1''] \<and>
        length (ports (h' ! 2)) = length (ports tapped_wire)"
proof -
  from tapped_returns obtain h' where
    r: "add_electrical_pads_shortest [tapped_wire, pad20] 0 1 50 select_ports_electrical None 0 ''M3''
          = Inr (h', 2)" ..
  have sub: "set (selected_ports [tapped_wire, pad20] 0 select_ports_electrical)
               \<subseteq> snd ` set (ports ([tapped_wire, pad20] ! 0))"
    unfolding selected_tapped by (auto simp: tapped_wire_def)
  from port_set_completeness [OF r keyed_tapped sub] obtain new where
    po: "ports (h' ! 2) =
          new @ filter (\<lambda>(k, p). k \<notin> port.name ` set (selected_ports [tapped_wire, pad20] 0 select_ports_electrical))
                    (ports ([tapped_wire, pad20] ! 0))"
    and nm: "map fst new = map (pad_port_name (component.name ([tapped_wire, pad20] ! 0)))
                            [0..<length (selected_ports [tapped_wire, pad20] 0 select_ports_electrical)]"
    and len: "length (ports (h' ! 2)) = length (ports ([tapped_wire, pad20] ! 0))"
    by (elim exE conjE) (rule that)
  have "[0..<length (selected_ports [tapped_wire, pad20] 0 select_ports_electrical)] = [0, Suc 0]"
    unfolding selected_tapped by (simp add: wire_def upt_rec)
  then have nm': "map fst new = [''elec-wire-1'', ''elec-wire-2'']"
    using nm by (simp add: pad_port_name_def tapped_wire_def wire_def str_1 str_2)
  have "map fst (ports (h' ! 2)) = [''elec-wire-1'', ''elec-wire-2'', ''o1'']"
    unfolding po selected_tapped using nm'
    by (simp add: tapped_wire_def wire_def mk_port_def)
  with r len show ?thesis by auto
qed


lemma sub_scenario:
  "set (selected_ports [wire, pad20] 0 select_ports_electrical) \<subseteq> snd ` set (ports ([wire, pad20] ! 0))"
  unfolding selected_scenario by simp

text \<open>The scenario at 45 degrees, an orientation that no branch handles.\<close>

theorem pads_added_whatever_the_orientation_witness:
  "\<exists>h'. scenario 45 = Inr (h', 2) \<and>
        length (instances (references (h' ! 2))) = 3 \<and>
        (\<forall>r \<in> set (tl (instances (references (h' ! 2)))). parent r = 1) \<and>
        map fst (take 2 (ports (h' ! 2))) = [''elec-wire-1'', ''elec-wire-2''] \<and>
        {''e1'', ''e2''} \<inter> fst ` set (ports (h' ! 2)) = {} \<and>
        length (ports (h' ! 2)) = 2"
proof -
  from scenario_45_returns obtain h' where r: "scenario 45 = Inr (h', 2)" ..
  have l: "length (selected_ports [wire, pad20] 0 select_ports_electrical) = 2"
    and n: "port.name ` set (selected_ports [wire, pad20] 0 select_ports_electrical) = {''e1'', ''e2''}"
    and w: "length (ports ([wire, pad20] ! 0)) = 2" "component.name ([wire, pad20] ! 0) = ''wire''"
    unfolding selected_scenario by (simp_all add: wire_def mk_port_def upt_rec)
  have p: "map (pad_port_name ''wire'') [0..<2] = [''elec-wire-1'', ''elec-wire-2'']"
    by (simp add: pad_port_name_def str_1 str_2 numeral_2_eq_2)
  have T: "length (instances (references (h' ! 2))) = Suc 2 \<and>
        (\<forall>r \<in> set (tl (instances (references (h' ! 2)))). parent r = 1) \<and>
        map fst (take 2 (ports (h' ! 2))) = [''elec-wire-1'', ''elec-wire-2''] \<and>
        {''e1'', ''e2''} \<inter> fst ` set (ports (h' ! 2)) = {} \<and>
        length (ports (h' ! 2)) = 2"
    using pads_added_whatever_the_orientation [OF r [unfolded scenario_def] keyed_wire sub_scenario]
    unfolding l n w p .
  from T have T1: "length (instances (references (h' ! 2))) = 3" by simp
  note T2 = T [THEN conjunct2, THEN conjunct1]
  note T3 = T [THEN conjunct2, THEN conjunct2, THEN conjunct1]
  note T4 = T [THEN conjunct2, THEN conjunct2, THEN conjunct2, THEN conjunct1]
  note T5 = T [THEN conjunct2, THEN conjunct2, THEN conjunct2, THEN conjunct2]
  show ?thesis
    by (intro exI [of _ h'] conjI) (rule r T1 T2 T3 T4 T5)+
qed

text \<open>The second pad port of the scenario at 180 degrees.\<close>

theorem pad_port_names_witness:
  "\<exists>h'. scenario 180 = Inr (h', 2) \<and>
        fst (ports (h' ! 2) ! 1) = ''elec-wire-2'' \<and>
        port.name (snd (ports (h' ! 2) ! 1)) = ''elec-wire-2'' \<and>
        port_center (snd (ports (h' ! 2) ! 1)) = (140, 0)"
proof -
  from scenario_180_returns obtain h' where r: "scenario 180 = Inr (h', 2)" ..
  have i: "1 < length (selected_ports [wire, pad20] 0 select_ports_electrical)"
    unfolding selected_scenario by (simp add: wire_def)
  have s1: "selected_ports [wire, pad20] 0 select_ports_electrical ! 1 = snd (mk_port ''e2'' 200 0 0 ''electrical'')"
    unfolding selected_scenario by (simp add: wire_def)
  from pad_port_names [OF r [unfolded scenario_def] keyed_wire sub_scenario i]
  obtain xsize q where
    a: "fst (ports (h' ! 2) ! 1) = ''elec-'' @ component.name ([wire, pad20] ! 0) @ ''-'' @ str (1 + 1)"
    and b: "port.name (snd (ports (h' ! 2) ! 1)) =
           ''elec-'' @ component.name ([wire, pad20] ! 0) @ ''-'' @ str (1 + 1)"
    and xs: "map_of (info ([wire, pad20] ! 1)) ''xsize'' = Some xsize"
    and q: "map_of (ports ([wire, pad20] ! 1)) ''pad'' = Some q"
    and e: "port_center (snd (ports (h' ! 2) ! 1)) =
              port_center (move_port
                 (origin_x (placed [wire, pad20] 1 (selected_ports [wire, pad20] 0 select_ports_electrical ! 1) (50 + xsize / 2) 180))
                 (origin_y (placed [wire, pad20] 1 (selected_ports [wire, pad20] 0 select_ports_electrical ! 1) (50 + xsize / 2) 180))
                 q)"
    by (elim exE conjE) (rule that)
  from xs have x: "xsize = 20" by (simp add: pad20_def)
  from q have q': "q = snd (mk_port ''pad'' 0 0 0 ''vertical_dc'')" by (simp add: pad20_def mk_port_def)
  have "port_center (snd (ports (h' ! 2) ! 1)) = (140, 0)"
    unfolding e s1 x q'
    by (simp add: port_center_def move_port_def placed_def place_def set_x_def set_y_def
        reference_x_def reference_y_def new_reference_def mk_port_def pad20_def)
  with a b r show ?thesis
    by (auto simp: wire_def str_2 numeral_2_eq_2)
qed

subsection \<open>Selection and placement\<close>

lemma select_falsy:
  "port_names = None \<or> port_names = Some [] \<Longrightarrow>
   select h r sp port_names = Inr (PortDict (sp (reference_ports h r)))"
  by auto

lemma run_select_cong:
  assumes pn: "port_names = None \<or> port_names = Some []"
      and eq: "sp (ports (h ! component)) = sp' (ports (h ! component))"
  shows "add_electrical_pads_shortest h component pad d sp port_names ang layer =
         add_electrical_pads_shortest h component pad d sp' port_names ang layer"
proof (cases "component < length h \<and> pad < length h")
  case True
  define h2 where "h2 = (h @ [Component_new])[length h := add_child ((h @ [Component_new]) ! length h)
                           (Instance (new_reference component))]"
  have rp: "reference_ports h2 (new_reference component) = ports (h ! component)"
    using True by (simp add: reference_ports_new h2_def nth_append)
  have "select h2 (new_reference component) sp port_names =
        select h2 (new_reference component) sp' port_names"
    by (simp only: select_falsy [OF pn] rp eq)
  then show ?thesis
    unfolding add_electrical_pads_shortest_def Let_def h2_def [symmetric] by (simp only:)
next
  case False
  then show ?thesis by (simp add: add_electrical_pads_shortest_def)
qed

lemma run_names_cong:
  assumes "ns \<noteq> []"
  shows "add_electrical_pads_shortest h component pad d sp (Some ns) ang layer =
         add_electrical_pads_shortest h component pad d sp' (Some ns) ang layer"
proof (cases "component < length h \<and> pad < length h")
  case True
  then show ?thesis using run_names [OF assms, of component h pad] by simp
next
  case False
  then show ?thesis by (simp add: add_electrical_pads_shortest_def)
qed

text \<open>
  What the function does with the spacing. Let \<open>d\<close> be the spacing passed by the caller
  and \<open>xsize\<close> the value that the pad records under \<^verbatim>\<open>xsize\<close>. When the function
  returns, the pads, in the order of the selected ports at \<open>(x0, y0)\<close>, are centred at
  \<open>(x0 + d + xsize / 2, y0)\<close> for the orientation 0, at \<open>(x0 - d - xsize / 2, y0)\<close> for
  180, at \<open>(x0, y0 + d + xsize / 2)\<close> for 90 and at \<open>(x0, y0 - d - xsize / 2)\<close> for 270:
  line 57 adds half of \<^verbatim>\<open>xsize\<close> once, for all four branches.
\<close>

theorem pad_placement:
  assumes run: "add_electrical_pads_shortest h component pad d select_ports port_names ang layer
                  = Inr (h', c)"
      and xs: "map_of (info (h ! pad)) ''xsize'' = Some xsize"
  shows "(ang = 0 \<longrightarrow>
            map (reference_center h') (tl (instances (references (h' ! c)))) =
            map (\<lambda>port. (px port + d + xsize / 2, py port)) (selected_ports h component select_ports)) \<and>
         (ang = 180 \<longrightarrow>
            map (reference_center h') (tl (instances (references (h' ! c)))) =
            map (\<lambda>port. (px port - d - xsize / 2, py port)) (selected_ports h component select_ports)) \<and>
         (ang = 90 \<longrightarrow>
            map (reference_center h') (tl (instances (references (h' ! c)))) =
            map (\<lambda>port. (px port, py port + d + xsize / 2)) (selected_ports h component select_ports)) \<and>
         (ang = 270 \<longrightarrow>
            map (reference_center h') (tl (instances (references (h' ! c)))) =
            map (\<lambda>port. (px port, py port - d - xsize / 2)) (selected_ports h component select_ports))"
proof -
  from run_Inr(3) [OF run] obtain xsize' q where
    xs': "map_of (info (h ! pad)) ''xsize'' = Some xsize'"
    and ins: "instances (references (h' ! c)) =
               new_reference component #
               map (\<lambda>port. placed h pad port (d + xsize' / 2) ang) (selected_ports h component select_ports)"
    by (elim exE conjE) (rule that)
  from xs xs' have x: "xsize' = xsize" by simp
  from run_Inr(1) [OF run] have hp: "h' ! pad = h ! pad" by simp
  have rc: "\<And>port. reference_center h' (placed h pad port (d + xsize / 2) ang) =
                   reference_center h (placed h pad port (d + xsize / 2) ang)"
    by (rule reference_center_heap_cong) (simp add: hp)
  have "map (reference_center h') (tl (instances (references (h' ! c)))) =
        map (\<lambda>port. reference_center h (placed h pad port (d + xsize / 2) ang))
            (selected_ports h component select_ports)"
    by (simp add: ins x rc comp_def)
  then show ?thesis
    by (simp add: reference_center_placed algebra_simps)
qed

lemma scenario_0_returns: "\<exists>h'. scenario 0 = Inr (h', 2)"
  by (simp add: eval_defs str_1 str_2)

lemma xsize_pad20: "map_of (info ([wire, pad20] ! 1)) ''xsize'' = Some 20"
  by (simp add: pad20_def)

text \<open>The scenario at 90 degrees: both pads sit 60 above their ports.\<close>

theorem pad_placement_witness:
  "\<exists>h'. scenario 90 = Inr (h', 2) \<and>
        map (reference_center h') (tl (instances (references (h' ! 2)))) = [(0, 60), (200, 60)]"
proof -
  from scenario_90_returns obtain h' where r: "scenario 90 = Inr (h', 2)" ..
  from pad_placement [OF r [unfolded scenario_def] xsize_pad20]
  have "map (reference_center h') (tl (instances (references (h' ! 2)))) =
          map (\<lambda>port. (px port, py port + 50 + 20 / 2))
            (selected_ports [wire, pad20] 0 select_ports_electrical)"
    by simp
  then have c1: "map (reference_center h') (tl (instances (references (h' ! 2)))) = [(0, 60), (200, 60)]"
    unfolding selected_scenario by (simp add: wire_def mk_port_def)
  show ?thesis
    by (intro conjI exI [of _ h']) (rule r c1)+
qed

subsection \<open>Runs that return\<close>

text \<open>
  The decimal rendering of a number determines the number, so the pad ports of one run get
  pairwise different names; with that, a run on well-formed input is shown to return.
\<close>

lemma digit_inj:
  assumes "a < 10" and "b < 10" and "''0123456789'' ! a = ''0123456789'' ! b"
  shows "a = b"
proof -
  have d: "distinct ''0123456789''" by simp
  have l: "length ''0123456789'' = 10" by simp
  from assms show ?thesis
    using nth_eq_iff_index_eq [OF d, of a b] by (simp only: l)
qed

lemma str_nonempty: "str n \<noteq> []"
  by (subst str.simps) simp

lemma str_inj: "str n = str m \<Longrightarrow> n = m"
proof (induction n arbitrary: m rule: str.induct)
  case (1 n)
  show ?case
  proof (cases "n < 10")
    case n: True
    show ?thesis
    proof (cases "m < 10")
      case True
      with n "1.prems" have "''0123456789'' ! n = ''0123456789'' ! m"
        by (simp add: str.simps [of n] str.simps [of m])
      with n True show ?thesis by (rule digit_inj)
    next
      case False
      with n "1.prems" have "[''0123456789'' ! n] = str (m div 10) @ [''0123456789'' ! (m mod 10)]"
        by (simp add: str.simps [of n] str.simps [of m])
      then have "str (m div 10) = []" by simp
      with str_nonempty show ?thesis by blast
    qed
  next
    case n: False
    show ?thesis
    proof (cases "m < 10")
      case True
      with n "1.prems" have "str (n div 10) @ [''0123456789'' ! (n mod 10)] = [''0123456789'' ! m]"
        by (simp add: str.simps [of n] str.simps [of m])
      then have "str (n div 10) = []" by simp
      with str_nonempty show ?thesis by blast
    next
      case False
      with n "1.prems" have "str (n div 10) @ [''0123456789'' ! (n mod 10)] =
                             str (m div 10) @ [''0123456789'' ! (m mod 10)]"
        by (simp add: str.simps [of n] str.simps [of m])
      then have a: "str (n div 10) = str (m div 10)"
        and b: "''0123456789'' ! (n mod 10) = ''0123456789'' ! (m mod 10)"
        by simp_all
      from "1.IH" [OF n a] have q: "n div 10 = m div 10" .
      have r: "n mod 10 = m mod 10"
        by (rule digit_inj [OF _ _ b]) simp_all
      from q r show ?thesis
        by (metis div_mult_mod_eq)
    qed
  qed
qed

lemma pad_port_name_inj: "pad_port_name n i = pad_port_name n j \<Longrightarrow> i = j"
  using str_inj [of "i + 1" "j + 1"] by (simp add: pad_port_name_def)


lemma map_of_keys: "k \<in> fst ` set d \<Longrightarrow> \<exists>v. map_of d k = Some v"
  by (cases "map_of d k") (simp_all add: map_of_eq_None_iff)

lemma pin_of_place:
  "snd (place h p port sp ang) = Some e \<Longrightarrow>
   ang \<in> {0, 90, 180, 270} \<and> e \<in> {''e1'', ''e2'', ''e3'', ''e4''}"
  by (simp add: place_def split: if_splits)

lemma loop_body_returns:
  assumes c: "c < length h" and pc: "pad \<noteq> c" and cc: "component \<noteq> c"
      and q: "map_of (ports (h ! pad)) ''pad'' = Some q"
      and pins: "ang \<in> {0, 90, 180, 270} \<Longrightarrow>
                 {''e1'', ''e2'', ''e3'', ''e4''} \<subseteq> fst ` set (ports (h ! pad))"
      and fresh: "pad_port_name (component.name (h ! component)) i \<notin> fst ` set (ports (h ! c))"
  shows "\<exists>h'. loop_body h c component pad sp ang layer i port = Inr h'"
proof -
  define h1 where "h1 = h[c := add_child (h ! c) (Instance (new_reference pad))]"
  define r where "r = fst (place h (new_reference pad) port sp ang)"
  define pin where "pin = snd (place h (new_reference pad) port sp ang)"
  have h1pad: "h1 ! parent (new_reference pad) = h ! parent (new_reference pad)"
    using pc by (simp add: h1_def new_reference_def)
  have pl: "place h1 (new_reference pad) port sp ang = (r, pin)"
    using place_heap_cong [OF h1pad] by (simp add: r_def pin_def)
  define h2 where "h2 = h1[c := set_child (h1 ! c) (length (references (h ! c))) (Instance r)]"
  have par: "parent r = pad" by (simp add: r_def new_reference_def)
  have rp: "\<And>hh. hh ! pad = h ! pad \<Longrightarrow> reference_ports hh r = reference_ports h r"
    using par by (simp add: reference_ports_def)
  have h2pad: "h2 ! pad = h ! pad" and h2cmp: "h2 ! component = h ! component"
    and h2p: "ports (h2 ! c) = ports (h ! c)" and h2len: "c < length h2"
    using c pc cc by (simp_all add: h2_def h1_def add_child_def set_child_def)
  define X where "X = (case pin of
                 None \<Rightarrow> Inr h2
               | Some e \<Rightarrow>
                   (case dict_getitem (reference_ports h2 r) e of
                      Inl err \<Rightarrow> Inl err
                    | Inr q \<Rightarrow> Inr (h2[c := add_child (h2 ! c) (route_quad port q layer)])))"
  have lb: "loop_body h c component pad sp ang layer i port =
     (case X of
           Inl err \<Rightarrow> Inl err
         | Inr h3 \<Rightarrow>
             (case dict_getitem (reference_ports h3 r) ''pad'' of
                Inl err \<Rightarrow> Inl err
              | Inr q \<Rightarrow>
                  (case add_port (h3 ! c) q (pad_port_name (component.name (h3 ! component)) i) of
                     Inl err \<Rightarrow> Inl err
                   | Inr c' \<Rightarrow> Inr (h3[c := c']))))"
    unfolding loop_body_def Let_def h1_def [symmetric] pl prod.case h2_def [symmetric] X_def ..
  have "\<exists>h3. X = Inr h3 \<and> h3 ! pad = h ! pad \<and> h3 ! component = h ! component \<and>
          ports (h3 ! c) = ports (h ! c)"
  proof (cases pin)
    case None
    then show ?thesis using h2pad h2cmp h2p by (simp add: X_def)
  next
    case (Some e)
    from pin_of_place [OF Some [unfolded pin_def]] pins
    have "e \<in> fst ` set (ports (h ! pad))" by blast
    then obtain v where "map_of (ports (h ! pad)) e = Some v"
      using map_of_keys by fastforce
    then have "dict_getitem (reference_ports h2 r) e = Inr (move_port (origin_x r) (origin_y r) v)"
      by (simp add: dict_getitem_def rp [OF h2pad] map_of_reference_ports par)
    then show ?thesis
      using Some h2pad h2cmp h2p h2len pc cc by (simp add: X_def add_child_def)
  qed
  then obtain h3 where x: "X = Inr h3" and h3pad: "h3 ! pad = h ! pad"
    and h3cmp: "h3 ! component = h ! component" and h3p: "ports (h3 ! c) = ports (h ! c)"
    by blast
  have g: "dict_getitem (reference_ports h3 r) ''pad'' = Inr (move_port (origin_x r) (origin_y r) q)"
    using q by (simp add: dict_getitem_def rp [OF h3pad] map_of_reference_ports par)
  have "\<exists>c'. add_port (h3 ! c) (move_port (origin_x r) (origin_y r) q)
           (pad_port_name (component.name (h3 ! component)) i) = Inr c'"
    using fresh by (simp add: add_port_def h3p h3cmp)
  then show ?thesis
    unfolding lb x by (auto simp: g)
qed


lemma pads_loop_returns:
  assumes "c < length h" and "pad \<noteq> c" and "component \<noteq> c"
      and "map_of (ports (h ! pad)) ''pad'' = Some q"
      and "ang \<in> {0, 90, 180, 270} \<longrightarrow>
             {''e1'', ''e2'', ''e3'', ''e4''} \<subseteq> fst ` set (ports (h ! pad))"
      and "\<forall>j. i \<le> j \<and> j < i + length ps \<longrightarrow>
             pad_port_name (component.name (h ! component)) j \<notin> fst ` set (ports (h ! c))"
  shows "\<exists>h'. pads_loop h c component pad sp ang layer i ps = Inr h'"
  using assms
proof (induction ps arbitrary: h i)
  case Nil
  then show ?case by simp
next
  case (Cons port rest)
  have fr0: "pad_port_name (component.name (h ! component)) i \<notin> fst ` set (ports (h ! c))"
    using Cons.prems(6) by simp
  from loop_body_returns [OF Cons.prems(1-4) _ fr0, of ang sp layer port] Cons.prems(5)
  obtain h1 where b: "loop_body h c component pad sp ang layer i port = Inr h1"
    by blast
  from loop_body_Inr [OF b Cons.prems(1-3)] obtain q' rs where
    len: "length h1 = length h" and fr: "\<forall>a. a \<noteq> c \<longrightarrow> h1 ! a = h ! a"
    and po: "ports (h1 ! c) = ports (h ! c) @
              [exposed (component.name (h ! component)) (placed h pad port sp ang) q' i]"
    by (elim exE conjE) (rule that)
  have h1pad: "h1 ! pad = h ! pad" and h1cmp: "h1 ! component = h ! component"
    using fr Cons.prems(2,3) by simp_all
  have c1: "c < length h1" using len Cons.prems(1) by simp
  have q1: "map_of (ports (h1 ! pad)) ''pad'' = Some q"
    using Cons.prems(4) by (simp add: h1pad)
  have p1: "ang \<in> {0, 90, 180, 270} \<longrightarrow>
             {''e1'', ''e2'', ''e3'', ''e4''} \<subseteq> fst ` set (ports (h1 ! pad))"
    using Cons.prems(5) by (simp only: h1pad)
  have f1: "\<forall>j. Suc i \<le> j \<and> j < Suc i + length rest \<longrightarrow>
             pad_port_name (component.name (h1 ! component)) j \<notin> fst ` set (ports (h1 ! c))"
  proof (intro allI impI)
    fix j assume j: "Suc i \<le> j \<and> j < Suc i + length rest"
    then have "pad_port_name (component.name (h ! component)) j \<notin> fst ` set (ports (h ! c))"
      using Cons.prems(6) by simp
    moreover have "pad_port_name (component.name (h ! component)) j
        \<noteq> pad_port_name (component.name (h ! component)) i"
      using j pad_port_name_inj [of "component.name (h ! component)" j i] by auto
    ultimately show "pad_port_name (component.name (h1 ! component)) j \<notin> fst ` set (ports (h1 ! c))"
      by (simp add: po h1cmp)
  qed
  from Cons.IH [OF c1 Cons.prems(2,3) q1 p1 f1] obtain h' where
    "pads_loop h1 c component pad sp ang layer (Suc i) rest = Inr h'" ..
  with b show ?case by simp
qed

lemma add_ports_returns:
  assumes "distinct (map port.name ps)" and "port.name ` set ps \<inter> fst ` set (ports c) = {}"
  shows "\<exists>c'. add_ports c ps = Inr c'"
  using assms
proof (induction ps arbitrary: c)
  case Nil
  then show ?case by simp
next
  case (Cons p ps)
  from Cons.prems(2) have fresh: "port.name p \<notin> fst ` set (ports c)" by simp
  define c1 where "c1 = c\<lparr>ports := ports c @ [(port.name p, p\<lparr>port.name := port.name p\<rparr>)]\<rparr>"
  have a: "add_port c p (port.name p) = Inr c1"
    using fresh by (simp add: add_port_def c1_def)
  have d: "distinct (map port.name ps)" using Cons.prems(1) by simp
  have "port.name ` set ps \<inter> fst ` set (ports c1) = {}"
    using Cons.prems by (auto simp: c1_def)
  from Cons.IH [OF d this] obtain c' where "add_ports c1 ps = Inr c'" ..
  with a show ?case by simp
qed

lemma keys_filter_neq: "fst ` set (filter (\<lambda>(k', q). k' \<noteq> n) d) = fst ` set d - {n}"
  by (induction d) auto

lemma pop_loop_returns:
  assumes "c < length h" and "distinct (map port.name ps)"
      and "port.name ` set ps \<subseteq> fst ` set (ports (h ! c))"
  shows "\<exists>h'. pop_loop h c ps = Inr h'"
  using assms
proof (induction ps arbitrary: h)
  case Nil
  then show ?case by simp
next
  case (Cons p ps)
  from Cons.prems(3) have inn: "port.name p \<in> fst ` set (ports (h ! c))" by simp
  define c1 where "c1 = (h ! c)\<lparr>ports := filter (\<lambda>(k', q). k' \<noteq> port.name p) (ports (h ! c))\<rparr>"
  have a: "ports_pop (h ! c) (port.name p) = Inr c1"
    using inn by (simp add: ports_pop_def c1_def)
  have l: "c < length (h[c := c1])" using Cons.prems(1) by simp
  have d: "distinct (map port.name ps)" using Cons.prems(2) by simp
  have "port.name p \<notin> port.name ` set ps" using Cons.prems(2) by simp
  moreover have "port.name ` set ps \<subseteq> fst ` set (ports (h ! c))" using Cons.prems(3) by simp
  ultimately have "port.name ` set ps \<subseteq> fst ` set (ports (h ! c)) - {port.name p}" by blast
  moreover have "ports (h[c := c1] ! c) = filter (\<lambda>(k', q). k' \<noteq> port.name p) (ports (h ! c))"
    using Cons.prems(1) by (simp add: c1_def)
  ultimately have "port.name ` set ps \<subseteq> fst ` set (ports (h[c := c1] ! c))"
    by (simp only: keys_filter_neq)
  from Cons.IH [OF l d this] obtain h' where "pop_loop (h[c := c1]) c ps = Inr h'" ..
  with a show ?case by simp
qed


lemma selected_ports_eq:
  "selected_ports h component sp = map snd (sp (ports (h ! component)))"
  by (simp add: selected_ports_def reference_ports_new)

lemma run_returns:
  assumes valid: "component < length h" "pad < length h"
      and pn: "port_names = None \<or> port_names = Some []"
      and xs: "map_of (info (h ! pad)) ''xsize'' = Some xsize"
      and q: "map_of (ports (h ! pad)) ''pad'' = Some q"
      and pins: "ang \<in> {0, 90, 180, 270} \<longrightarrow>
                   {''e1'', ''e2'', ''e3'', ''e4''} \<subseteq> fst ` set (ports (h ! pad))"
      and dP: "distinct (map port.name (map snd (ports (h ! component))))"
      and dS: "distinct (map port.name (selected_ports h component sp))"
      and subS: "port.name ` set (selected_ports h component sp)
                   \<subseteq> port.name ` snd ` set (ports (h ! component))"
      and fresh: "\<forall>j < length (selected_ports h component sp).
                    pad_port_name (component.name (h ! component)) j
                      \<notin> port.name ` snd ` set (ports (h ! component))"
  shows "\<exists>h'. add_electrical_pads_shortest h component pad d sp port_names ang layer
               = Inr (h', length h)"
proof -
  define S where "S = map snd (sp (ports (h ! component)))"
  have SS: "selected_ports h component sp = S" by (simp add: S_def selected_ports_eq)
  define P where "P = ports (h ! component)"
  define n where "n = component.name (h ! component)"
  define h2 where "h2 = (h @ [Component_new])[length h := add_child ((h @ [Component_new]) ! length h)
                           (Instance (new_reference component))]"
  have h2old: "\<And>a. a < length h \<Longrightarrow> h2 ! a = h ! a"
    by (simp add: h2_def nth_append)
  have h2c: "h2 ! length h = add_child Component_new (Instance (new_reference component))"
    by (simp add: h2_def)
  have h2len: "length h2 = Suc (length h)" by (simp add: h2_def)
  have h2pad: "h2 ! pad = h ! pad" and h2cmp: "h2 ! component = h ! component"
    using valid by (simp_all add: h2old)
  have rp: "reference_ports h2 (new_reference component) = ports (h ! component)"
    by (simp add: reference_ports_new h2cmp)
  have r1: "add_electrical_pads_shortest h component pad d sp port_names ang layer =
    (case select h2 (new_reference component) sp port_names of
        Inl err \<Rightarrow> Inl err
      | Inr sel \<Rightarrow>
     (case values_list sel of
        Inl err \<Rightarrow> Inl err
      | Inr sel_ports \<Rightarrow>
     (case dict_getitem (info (h2 ! pad)) ''xsize'' of
        Inl err \<Rightarrow> Inl err
      | Inr xsize \<Rightarrow>
     (case pads_loop h2 (length h) component pad (d + xsize / 2) ang layer 0 sel_ports of
        Inl err \<Rightarrow> Inl err
      | Inr h3 \<Rightarrow>
     (case add_ports (h3 ! length h) (map snd (reference_ports h3 (new_reference component))) of
        Inl err \<Rightarrow> Inl err
      | Inr c4 \<Rightarrow>
     (case pop_loop (h3[length h := c4]) (length h) sel_ports of
        Inl err \<Rightarrow> Inl err
      | Inr h5 \<Rightarrow> Inr (h5[length h := copy_child_info (h5 ! length h) (h5 ! component)], length h)))))))"
    unfolding add_electrical_pads_shortest_def Let_def h2_def [symmetric] using valid by simp
  have s1: "select h2 (new_reference component) sp port_names = Inr (PortDict (sp (ports (h ! component))))"
    by (simp only: select_falsy [OF pn] rp)
  have s2: "values_list (PortDict (sp (ports (h ! component)))) = Inr S"
    by (simp add: S_def)
  have s3: "dict_getitem (info (h2 ! pad)) ''xsize'' = Inr xsize"
    by (simp add: dict_getitem_def h2pad xs)
  have c2: "length h < length h2" by (simp add: h2len)
  have ne: "pad \<noteq> length h" "component \<noteq> length h" using valid by simp_all
  have q2: "map_of (ports (h2 ! pad)) ''pad'' = Some q" by (simp add: h2pad q)
  have p2: "ang \<in> {0, 90, 180, 270} \<longrightarrow>
             {''e1'', ''e2'', ''e3'', ''e4''} \<subseteq> fst ` set (ports (h2 ! pad))"
    using pins by (simp only: h2pad)
  have f2: "\<forall>j. 0 \<le> j \<and> j < 0 + length S \<longrightarrow>
             pad_port_name (component.name (h2 ! component)) j \<notin> fst ` set (ports (h2 ! length h))"
    by (simp add: h2c add_child_def Component_new_def)
  from pads_loop_returns [OF c2 ne q2 p2 f2] obtain h3 where
    s4: "pads_loop h2 (length h) component pad (d + xsize / 2) ang layer 0 S = Inr h3" ..
  note L = pads_loop_Inr [OF s4 c2 ne]
  from L have l3: "length h3 = Suc (length h)"
    and f3: "\<forall>a. a \<noteq> length h \<longrightarrow> h3 ! a = h2 ! a"
    by (simp_all add: h2len)
  from L obtain q' where
    p3: "ports (h3 ! length h) = ports (h2 ! length h) @
           pad_ports h2 pad (component.name (h2 ! component)) (d + xsize / 2) ang q' 0 S"
    by (elim exE conjE) (rule that)
  have k3: "fst ` set (ports (h3 ! length h)) = pad_port_name n ` {0..<length S}"
    using arg_cong [OF map_fst_pad_ports [of h2 pad n "d + xsize / 2" ang q' 0 S], of set]
    by (simp add: p3 h2c add_child_def Component_new_def h2cmp n_def)
  have h3cmp: "h3 ! component = h ! component"
    using f3 ne h2cmp by simp
  have rp3: "reference_ports h3 (new_reference component) = P"
    by (simp add: reference_ports_new h3cmp P_def)
  define B where "B = port.name ` snd ` set P"
  have frB: "\<forall>j < length S. pad_port_name n j \<notin> B"
    using fresh by (simp only: SS P_def n_def B_def)
  have AB: "B \<inter> pad_port_name n ` {0..<length S} = {}"
    using frB by auto
  have nB: "port.name ` set (map snd P) = B"
    by (simp add: B_def)
  have dj: "port.name ` set (map snd P) \<inter> fst ` set (ports (h3 ! length h)) = {}"
    unfolding nB k3 by (rule AB)
  from add_ports_returns [OF dP [folded P_def] dj] obtain c4 where
    s5: "add_ports (h3 ! length h) (map snd P) = Inr c4" ..
  from add_ports_Inr [OF s5] have p4: "ports c4 = ports (h3 ! length h) @ map (\<lambda>p. (port.name p, p)) (map snd P)"
    by simp
  have c3: "length h < length (h3[length h := c4])" by (simp add: l3)
  have subB: "port.name ` set S \<subseteq> B"
    using subS by (simp only: SS P_def B_def)
  have k4: "fst ` set (ports c4) = fst ` set (ports (h3 ! length h)) \<union> B"
    by (simp add: p4 image_Un image_image B_def)
  have sub4: "port.name ` set S \<subseteq> fst ` set (ports (h3[length h := c4] ! length h))"
    using subB by (auto simp: l3 k4)
  from pop_loop_returns [OF c3 dS [unfolded SS] sub4] obtain h5 where
    s6: "pop_loop (h3[length h := c4]) (length h) S = Inr h5" ..
  show ?thesis
    unfolding r1 s1 sum.case s2 s3 s4 rp3 s5 s6 by simp
qed

subsection \<open>The scenario, orientation by orientation\<close>

lemma centers_0:
  "map_option port_centers (returned (scenario 0)) =
     Some [(''elec-wire-1'', 60, 0), (''elec-wire-2'', 260, 0)]"
  by (simp add: eval_defs returned_def port_centers_def str_1 str_2)

lemma centers_90:
  "map_option port_centers (returned (scenario 90)) =
     Some [(''elec-wire-1'', 0, 60), (''elec-wire-2'', 200, 60)]"
  by (simp add: eval_defs returned_def port_centers_def str_1 str_2)

lemma centers_180:
  "map_option port_centers (returned (scenario 180)) =
     Some [(''elec-wire-1'', - 60, 0), (''elec-wire-2'', 140, 0)]"
  by (simp add: eval_defs returned_def port_centers_def str_1 str_2)

lemma centers_270:
  "map_option port_centers (returned (scenario 270)) =
     Some [(''elec-wire-1'', 0, - 60), (''elec-wire-2'', 200, - 60)]"
  by (simp add: eval_defs returned_def port_centers_def str_1 str_2)

lemma has_port_at_iff:
  "map_option port_centers (returned r) = Some xs \<Longrightarrow> has_port_at r n a b \<longleftrightarrow> (n, a, b) \<in> set xs"
  by (cases "returned r") (auto simp: has_port_at_def)

text \<open>
  Claim C7 says that one call on the wire of the scenario returns a component with the
  port \<^verbatim>\<open>elec-wire-1\<close> at (-60, 0) and the port \<^verbatim>\<open>elec-wire-2\<close> at (260, 0). The
  orientation is one value for the whole call, so this fails at each of the four
  orientations: at 90 and 270 both pads are above or below their ports, at 0 the first pad
  is at (60, 0), at 180 the second is at (140, 0).
\<close>

theorem scenario_positions_counterexample:
  "\<not> (has_port_at (scenario 90) ''elec-wire-1'' (- 60) 0 \<and> has_port_at (scenario 90) ''elec-wire-2'' 260 0) \<and>
   \<not> (has_port_at (scenario 0) ''elec-wire-1'' (- 60) 0 \<and> has_port_at (scenario 0) ''elec-wire-2'' 260 0) \<and>
   \<not> (has_port_at (scenario 180) ''elec-wire-1'' (- 60) 0 \<and> has_port_at (scenario 180) ''elec-wire-2'' 260 0) \<and>
   \<not> (has_port_at (scenario 270) ''elec-wire-1'' (- 60) 0 \<and> has_port_at (scenario 270) ''elec-wire-2'' 260 0)"
  by (simp add: has_port_at_iff [OF centers_0] has_port_at_iff [OF centers_90]
      has_port_at_iff [OF centers_180] has_port_at_iff [OF centers_270])

lemma centers_unsupported:
  assumes "ang \<noteq> 0" "ang \<noteq> 180" "ang \<noteq> 90" "ang \<noteq> 270"
  shows "map_option port_centers (returned (scenario ang)) =
     Some [(''elec-wire-1'', 0, 0), (''elec-wire-2'', 0, 0)]"
  using assms by (simp add: eval_defs returned_def port_centers_def str_1 str_2)

lemma pads_unsupported:
  assumes "ang \<noteq> 0" "ang \<noteq> 180" "ang \<noteq> 90" "ang \<noteq> 270"
  shows "map_option pad_references (returned (scenario ang)) =
     Some [new_reference 1, new_reference 1]"
  using assms by (simp add: eval_defs returned_def pad_references_def str_1 str_2)

lemma scenario_never_both:
  "\<not> (has_port_at (scenario ang) ''elec-wire-1'' (- 60) 0 \<and>
      has_port_at (scenario ang) ''elec-wire-2'' 260 0)"
proof -
  consider "ang = 0" | "ang = 90" | "ang = 180" | "ang = 270"
    | "ang \<noteq> 0" "ang \<noteq> 180" "ang \<noteq> 90" "ang \<noteq> 270" by blast
  then show ?thesis
  proof cases
    case 1 then show ?thesis by (simp add: has_port_at_iff [OF centers_0])
  next
    case 2 then show ?thesis by (simp add: has_port_at_iff [OF centers_90])
  next
    case 3 then show ?thesis by (simp add: has_port_at_iff [OF centers_180])
  next
    case 4 then show ?thesis by (simp add: has_port_at_iff [OF centers_270])
  next
    case 5 then show ?thesis by (simp add: has_port_at_iff [OF centers_unsupported])
  qed
qed


text \<open>
  Claim C7, amended. On the wire of the scenario with spacing 50 and the pad of half-extent
  10, the call with orientation 180 returns a component whose ports are \<^verbatim>\<open>elec-wire-1\<close>
  at (-60, 0) and \<^verbatim>\<open>elec-wire-2\<close> at (140, 0), and the call with orientation 0 returns
  one whose ports are \<^verbatim>\<open>elec-wire-1\<close> at (60, 0) and \<^verbatim>\<open>elec-wire-2\<close> at (260, 0);
  \<^verbatim>\<open>e1\<close> and \<^verbatim>\<open>e2\<close> are ports of neither. No value of the orientation gives
  (-60, 0) and (260, 0) in the same call.
\<close>

theorem scenario_positions_per_orientation:
  "map_option port_centers (returned (scenario 180)) =
     Some [(''elec-wire-1'', - 60, 0), (''elec-wire-2'', 140, 0)] \<and>
   map_option port_centers (returned (scenario 0)) =
     Some [(''elec-wire-1'', 60, 0), (''elec-wire-2'', 260, 0)] \<and>
   (\<forall>ang. \<not> (has_port_at (scenario ang) ''elec-wire-1'' (- 60) 0 \<and>
            has_port_at (scenario ang) ''elec-wire-2'' 260 0))"
  using centers_180 centers_0 scenario_never_both by blast

subsection \<open>Orientations that no branch handles\<close>

text \<open>
  Claim C3 says that for an orientation other than 0, 90, 180 and 270 no pad is emitted.
  At 45 degrees the scenario returns a component with two references to the pad, both
  where \<^verbatim>\<open>c << pad\<close> put them, and with the two pad ports: \<^verbatim>\<open>c << pad\<close> and
  \<^verbatim>\<open>add_port\<close> are outside the chain of tests on the orientation.
\<close>

theorem unsupported_orientation_emits_pads_counterexample:
  "map_option pad_references (returned (scenario 45)) = Some [new_reference 1, new_reference 1] \<and>
   map_option pad_references (returned (scenario 45)) \<noteq> Some [] \<and>
   map_option port_centers (returned (scenario 45)) =
     Some [(''elec-wire-1'', 0, 0), (''elec-wire-2'', 0, 0)]"
proof -
  have a: "map_option pad_references (returned (scenario 45)) = Some [new_reference 1, new_reference 1]"
    by (rule pads_unsupported) simp_all
  have b: "map_option port_centers (returned (scenario 45)) =
     Some [(''elec-wire-1'', 0, 0), (''elec-wire-2'', 0, 0)]"
    by (rule centers_unsupported) simp_all
  have c: "map_option pad_references (returned (scenario 45)) \<noteq> Some []"
    unfolding a by simp
  show ?thesis
    by (intro conjI) (rule a c b)+
qed

text \<open>
  Claim C3, amended. For an orientation other than 0, 90, 180 and 270 the function skips
  placement and routing for every selected port, and the orientation raises no error: on
  input on which nothing else fails (no port names given, a pad with an \<^verbatim>\<open>xsize\<close> and a
  port \<^verbatim>\<open>pad\<close>, selected ports that are ports of the component with pairwise different
  names, and no port of the component named like a pad port) it returns. The output has no
  route, and one reference to the pad per selected port, each left at the origin where
  \<^verbatim>\<open>c << pad\<close> put it. The loop still emits one pad port per selected port: the first
  ports of the output are named \<^verbatim>\<open>elec-<name>-1\<close>, \<^verbatim>\<open>elec-<name>-2\<close> and so on, one
  for each selected port, each at the position the port \<^verbatim>\<open>pad\<close> has in the pad cell.
\<close>

theorem unsupported_orientation_skips_placement:
  assumes ang: "ang \<notin> {0, 90, 180, 270}"
      and valid: "component < length h" "pad < length h"
      and pn: "port_names = None \<or> port_names = Some []"
      and xs: "map_of (info (h ! pad)) ''xsize'' = Some xsize"
      and q: "map_of (ports (h ! pad)) ''pad'' = Some q"
      and dP: "distinct (map port.name (map snd (ports (h ! component))))"
      and dS: "distinct (map port.name (selected_ports h component sp))"
      and subS: "port.name ` set (selected_ports h component sp)
                   \<subseteq> port.name ` snd ` set (ports (h ! component))"
      and fresh: "\<forall>j < length (selected_ports h component sp).
                    pad_port_name (component.name (h ! component)) j
                      \<notin> port.name ` snd ` set (ports (h ! component))"
  shows "\<exists>h'. add_electrical_pads_shortest h component pad d sp port_names ang layer
               = Inr (h', length h) \<and>
              routes (references (h' ! length h)) = [] \<and>
              pad_references (h' ! length h) =
                replicate (length (selected_ports h component sp)) (new_reference pad) \<and>
              map fst (take (length (selected_ports h component sp)) (ports (h' ! length h))) =
                map (pad_port_name (component.name (h ! component)))
                  [0..<length (selected_ports h component sp)] \<and>
              (\<forall>i < length (selected_ports h component sp).
                 port_center (snd (ports (h' ! length h) ! i)) = port_center q)"
proof -
  from ang have pins: "ang \<in> {0, 90, 180, 270} \<longrightarrow>
                   {''e1'', ''e2'', ''e3'', ''e4''} \<subseteq> fst ` set (ports (h ! pad))"
    by simp
  from run_returns [OF valid pn xs q pins dP dS subS fresh] obtain h' where
    r: "add_electrical_pads_shortest h component pad d sp port_names ang layer = Inr (h', length h)" ..
  from run_Inr(6) [OF r] ang have "length (routes (references (h' ! length h))) = 0"
    by simp
  then have a: "routes (references (h' ! length h)) = []" by simp
  define S where "S = selected_ports h component sp"
  define n where "n = component.name (h ! component)"
  from run_Inr(3) [OF r] obtain xsize' q' where
    qq: "selected_ports h component sp = [] \<or> map_of (ports (h ! pad)) ''pad'' = Some q'"
    and po: "ports (h' ! length h) = filter (\<lambda>(k, p). k \<notin> port.name ` set (selected_ports h component sp))
               (pad_ports h pad (component.name (h ! component)) (d + xsize' / 2) ang q' 0
                  (selected_ports h component sp) @
                map (\<lambda>p. (port.name p, p)) (map snd (ports (h ! component))))"
    and dj: "port.name ` snd ` set (ports (h ! component)) \<inter>
              fst ` set (pad_ports h pad (component.name (h ! component)) (d + xsize' / 2) ang q' 0
                 (selected_ports h component sp)) = {}"
    and ins: "instances (references (h' ! length h)) =
               new_reference component #
               map (\<lambda>port. placed h pad port (d + xsize' / 2) ang) (selected_ports h component sp)"
    by (elim exE conjE) (rule that)
  have b: "pad_references (h' ! length h) =
                replicate (length (selected_ports h component sp)) (new_reference pad)"
    by (simp add: pad_references_def ins origin_placed_unsupported [OF ang] map_replicate_const)
  define padp where "padp = pad_ports h pad n (d + xsize' / 2) ang q' 0 S"
  have dj': "fst ` set padp \<inter> port.name ` set S = {}"
    unfolding padp_def n_def S_def by (rule disjoint_subset [OF dj subS])
  have po2: "ports (h' ! length h) =
       filter (\<lambda>(k, p). k \<notin> port.name ` set S)
         (padp @ map (\<lambda>p. (port.name p, p)) (map snd (ports (h ! component))))"
    unfolding padp_def S_def n_def by (rule po)
  have po': "ports (h' ! length h) =
       padp @ filter (\<lambda>(k, p). k \<notin> port.name ` set S)
                (map (\<lambda>p. (port.name p, p)) (map snd (ports (h ! component))))"
    unfolding po2 filter_append filter_keys_id [OF dj'] ..
  have lp: "length padp = length S" by (simp add: padp_def)
  have tk: "take (length S) (ports (h' ! length h)) = padp"
    by (simp add: po' lp)
  have c: "map fst (take (length S) (ports (h' ! length h))) = map (pad_port_name n) [0..<length S]"
    unfolding tk padp_def using map_fst_pad_ports [of h pad n "d + xsize' / 2" ang q' 0 S] by simp
  have e: "\<forall>i < length S. port_center (snd (ports (h' ! length h) ! i)) = port_center q"
  proof (intro allI impI)
    fix i assume i: "i < length S"
    then have "S \<noteq> []" by auto
    with qq q have q': "q' = q" by (simp add: S_def)
    have "ports (h' ! length h) ! i = padp ! i"
      using i by (simp add: po' nth_append lp)
    also have "\<dots> = exposed n (placed h pad (S ! i) (d + xsize' / 2) ang) q' (0 + i)"
      unfolding padp_def by (rule nth_pad_ports [OF i])
    finally show "port_center (snd (ports (h' ! length h) ! i)) = port_center q"
      by (simp add: origin_placed_unsupported [OF ang] new_reference_def q')
  qed
  show ?thesis
    by (intro exI [of _ h'] conjI) (rule r a b c [unfolded S_def n_def] e [unfolded S_def])+
qed


text \<open>The scenario at 45 degrees.\<close>

theorem unsupported_orientation_skips_placement_witness:
  "\<exists>h'. scenario 45 = Inr (h', 2) \<and> routes (references (h' ! 2)) = [] \<and>
        pad_references (h' ! 2) = [new_reference 1, new_reference 1] \<and>
        map fst (take 2 (ports (h' ! 2))) = [''elec-wire-1'', ''elec-wire-2''] \<and>
        port_center (snd (ports (h' ! 2) ! 0)) = (0, 0) \<and>
        port_center (snd (ports (h' ! 2) ! 1)) = (0, 0)"
proof -
  have ang: "(45::real) \<notin> {0, 90, 180, 270}" by simp
  have valid: "(0::nat) < length [wire, pad20]" "(1::nat) < length [wire, pad20]" by simp_all
  have pn: "(None :: string list option) = None \<or> (None :: string list option) = Some []" by simp
  have q: "map_of (ports ([wire, pad20] ! 1)) ''pad'' = Some (snd (mk_port ''pad'' 0 0 0 ''vertical_dc''))"
    by (simp add: pad20_def mk_port_def)
  have dP: "distinct (map port.name (map snd (ports ([wire, pad20] ! 0))))"
    by (simp add: wire_def mk_port_def)
  have dS: "distinct (map port.name (selected_ports [wire, pad20] 0 select_ports_electrical))"
    unfolding selected_scenario by (simp add: wire_def mk_port_def)
  have subS: "port.name ` set (selected_ports [wire, pad20] 0 select_ports_electrical)
                \<subseteq> port.name ` snd ` set (ports ([wire, pad20] ! 0))"
    unfolding selected_scenario by simp
  have fresh: "\<forall>j < length (selected_ports [wire, pad20] 0 select_ports_electrical).
                 pad_port_name (component.name ([wire, pad20] ! 0)) j
                   \<notin> port.name ` snd ` set (ports ([wire, pad20] ! 0))"
    by (simp add: wire_def mk_port_def pad_port_name_def)
  have l: "length (selected_ports [wire, pad20] 0 select_ports_electrical) = 2"
    unfolding selected_scenario by (simp add: wire_def)
  from unsupported_orientation_skips_placement [OF ang valid pn xsize_pad20 q dP dS subS fresh,
      of 50 "''M3''"]
  obtain h' where
    r: "add_electrical_pads_shortest [wire, pad20] 0 1 50 select_ports_electrical None 45 ''M3''
          = Inr (h', length [wire, pad20])"
    and a: "routes (references (h' ! length [wire, pad20])) = []"
    and b: "pad_references (h' ! length [wire, pad20]) =
              replicate (length (selected_ports [wire, pad20] 0 select_ports_electrical)) (new_reference 1)"
    and c: "map fst (take (length (selected_ports [wire, pad20] 0 select_ports_electrical))
                      (ports (h' ! length [wire, pad20]))) =
              map (pad_port_name (component.name ([wire, pad20] ! 0)))
                [0..<length (selected_ports [wire, pad20] 0 select_ports_electrical)]"
    and e: "\<forall>i < length (selected_ports [wire, pad20] 0 select_ports_electrical).
              port_center (snd (ports (h' ! length [wire, pad20]) ! i)) =
              port_center (snd (mk_port ''pad'' 0 0 0 ''vertical_dc''))"
    by (elim exE conjE) (rule that)
  have len2: "length [wire, pad20] = 2" by simp
  have rep: "replicate 2 (new_reference 1) = [new_reference 1, new_reference 1]"
    by (simp add: numeral_2_eq_2)
  have r': "scenario 45 = Inr (h', 2)" unfolding scenario_def using r [unfolded len2] .
  have a': "routes (references (h' ! 2)) = []" using a [unfolded len2] .
  have b': "pad_references (h' ! 2) = [new_reference 1, new_reference 1]"
    using b [unfolded len2 l rep] .
  have p: "map (pad_port_name (component.name ([wire, pad20] ! 0))) [0..<2] =
             [''elec-wire-1'', ''elec-wire-2'']"
    by (simp add: wire_def pad_port_name_def str_1 str_2 numeral_2_eq_2)
  have c': "map fst (take 2 (ports (h' ! 2))) = [''elec-wire-1'', ''elec-wire-2'']"
    using c [unfolded len2 l p] .
  have pc: "port_center (snd (mk_port ''pad'' 0 0 0 ''vertical_dc'')) = (0, 0)"
    by (simp add: port_center_def mk_port_def)
  note e2 = e [unfolded len2 l pc, rule_format]
  have e0: "port_center (snd (ports (h' ! 2) ! 0)) = (0, 0)"
    by (rule e2) simp
  have e1: "port_center (snd (ports (h' ! 2) ! 1)) = (0, 0)"
    by (rule e2) simp
  show ?thesis
    by (intro exI [of _ h'] conjI) (rule r' a' b' c' e0 e1)+
qed

subsection \<open>Port names and the selection function\<close>

lemma run_empty_names:
  "add_electrical_pads_shortest h component pad d sp (Some []) ang layer =
   add_electrical_pads_shortest h component pad d sp None ang layer"
  by (simp only: add_electrical_pads_shortest_def select.simps)


text \<open>
  Claim C4. With a non-empty list of port names the names take precedence: the result
  does not depend on the selection function, which is never called, and is fixed by the
  names (they are resolved against the ports of the component). Without one, and
  \<^verbatim>\<open>None\<close> and the empty list behave alike, the result depends on the selection function
  only through the dictionary it returns for the full port set of the component; the pads
  of a returning run are placed for the values of that dictionary, in its order; and on
  input on which nothing else fails the run does return, with these pads.
\<close>

theorem port_names_precedence:
  fixes h :: heap and component :: addr and sp sp' :: "port_dict \<Rightarrow> port_dict"
  defines "S \<equiv> map snd (sp (ports (h ! component)))"
  shows
  "(ns \<noteq> [] \<longrightarrow>
      add_electrical_pads_shortest h component pad d sp (Some ns) ang layer =
      add_electrical_pads_shortest h component pad d sp' (Some ns) ang layer) \<and>
   (ns \<noteq> [] \<and> component < length h \<and> pad < length h \<longrightarrow>
      add_electrical_pads_shortest h component pad d sp (Some ns) ang layer =
      Inl (if set ns \<subseteq> fst ` set (ports (h ! component)) then AttributeError else LookupError)) \<and>
   ((port_names = None \<or> port_names = Some []) \<and>
    sp (ports (h ! component)) = sp' (ports (h ! component)) \<longrightarrow>
      add_electrical_pads_shortest h component pad d sp port_names ang layer =
      add_electrical_pads_shortest h component pad d sp' port_names ang layer) \<and>
   ((port_names = None \<or> port_names = Some []) \<and>
    add_electrical_pads_shortest h component pad d sp port_names ang layer = Inr (h', c) \<longrightarrow>
      (\<exists>xsize. map_of (info (h ! pad)) ''xsize'' = Some xsize \<and>
         tl (instances (references (h' ! c))) =
         map (\<lambda>port. placed h pad port (d + xsize / 2) ang) (map snd (sp (ports (h ! component)))))) \<and>
   add_electrical_pads_shortest h component pad d sp (Some []) ang layer =
   add_electrical_pads_shortest h component pad d sp None ang layer \<and>
   ((port_names = None \<or> port_names = Some []) \<and>
    component < length h \<and> pad < length h \<and>
    map_of (info (h ! pad)) ''xsize'' = Some xsize \<and>
    map_of (ports (h ! pad)) ''pad'' = Some q \<and>
    (ang \<in> {0, 90, 180, 270} \<longrightarrow>
       {''e1'', ''e2'', ''e3'', ''e4''} \<subseteq> fst ` set (ports (h ! pad))) \<and>
    distinct (map port.name (map snd (ports (h ! component)))) \<and>
    distinct (map port.name S) \<and>
    port.name ` set S \<subseteq> port.name ` snd ` set (ports (h ! component)) \<and>
    (\<forall>j < length S. pad_port_name (component.name (h ! component)) j
         \<notin> port.name ` snd ` set (ports (h ! component))) \<longrightarrow>
      (\<exists>h2. add_electrical_pads_shortest h component pad d sp port_names ang layer
               = Inr (h2, length h) \<and>
            pad_references (h2 ! length h) =
              map (\<lambda>port. placed h pad port (d + xsize / 2) ang) S))"
proof (intro conjI impI)
  assume "ns \<noteq> []"
  then show "add_electrical_pads_shortest h component pad d sp (Some ns) ang layer =
      add_electrical_pads_shortest h component pad d sp' (Some ns) ang layer"
    by (rule run_names_cong)
next
  assume "ns \<noteq> [] \<and> component < length h \<and> pad < length h"
  then show "add_electrical_pads_shortest h component pad d sp (Some ns) ang layer =
      Inl (if set ns \<subseteq> fst ` set (ports (h ! component)) then AttributeError else LookupError)"
    using run_names [of ns component h pad d sp ang layer] by simp
next
  assume "(port_names = None \<or> port_names = Some []) \<and>
    sp (ports (h ! component)) = sp' (ports (h ! component))"
  then show "add_electrical_pads_shortest h component pad d sp port_names ang layer =
      add_electrical_pads_shortest h component pad d sp' port_names ang layer"
    using run_select_cong [of port_names sp h component sp' pad d ang layer] by blast
next
  assume a: "(port_names = None \<or> port_names = Some []) \<and>
    add_electrical_pads_shortest h component pad d sp port_names ang layer = Inr (h', c)"
  then have run: "add_electrical_pads_shortest h component pad d sp port_names ang layer = Inr (h', c)"
    by simp
  from run_Inr(3) [OF run] obtain xsize q where
    xs: "map_of (info (h ! pad)) ''xsize'' = Some xsize"
    and ins: "instances (references (h' ! c)) =
               new_reference component #
               map (\<lambda>port. placed h pad port (d + xsize / 2) ang) (selected_ports h component sp)"
    by (elim exE conjE) (rule that)
  show "\<exists>xsize. map_of (info (h ! pad)) ''xsize'' = Some xsize \<and>
         tl (instances (references (h' ! c))) =
         map (\<lambda>port. placed h pad port (d + xsize / 2) ang) (map snd (sp (ports (h ! component))))"
    apply (rule exI [of _ xsize])
    using xs by (simp add: ins selected_ports_def reference_ports_new)
next
  show "add_electrical_pads_shortest h component pad d sp (Some []) ang layer =
        add_electrical_pads_shortest h component pad d sp None ang layer"
    by (rule run_empty_names)
next
  assume a: "(port_names = None \<or> port_names = Some []) \<and>
    component < length h \<and> pad < length h \<and>
    map_of (info (h ! pad)) ''xsize'' = Some xsize \<and>
    map_of (ports (h ! pad)) ''pad'' = Some q \<and>
    (ang \<in> {0, 90, 180, 270} \<longrightarrow>
       {''e1'', ''e2'', ''e3'', ''e4''} \<subseteq> fst ` set (ports (h ! pad))) \<and>
    distinct (map port.name (map snd (ports (h ! component)))) \<and>
    distinct (map port.name S) \<and>
    port.name ` set S \<subseteq> port.name ` snd ` set (ports (h ! component)) \<and>
    (\<forall>j < length S. pad_port_name (component.name (h ! component)) j
         \<notin> port.name ` snd ` set (ports (h ! component)))"
  have SS: "selected_ports h component sp = S"
    by (simp add: S_def selected_ports_eq)
  note a1 = a [THEN conjunct1]
  note a2 = a [THEN conjunct2, THEN conjunct1]
  note a3 = a [THEN conjunct2, THEN conjunct2, THEN conjunct1]
  note a4 = a [THEN conjunct2, THEN conjunct2, THEN conjunct2, THEN conjunct1]
  note a5 = a [THEN conjunct2, THEN conjunct2, THEN conjunct2, THEN conjunct2, THEN conjunct1]
  note a6 = a [THEN conjunct2, THEN conjunct2, THEN conjunct2, THEN conjunct2, THEN conjunct2,
               THEN conjunct1]
  note a7 = a [THEN conjunct2, THEN conjunct2, THEN conjunct2, THEN conjunct2, THEN conjunct2,
               THEN conjunct2, THEN conjunct1]
  note a8 = a [THEN conjunct2, THEN conjunct2, THEN conjunct2, THEN conjunct2, THEN conjunct2,
               THEN conjunct2, THEN conjunct2, THEN conjunct1, folded SS]
  note a9 = a [THEN conjunct2, THEN conjunct2, THEN conjunct2, THEN conjunct2, THEN conjunct2,
               THEN conjunct2, THEN conjunct2, THEN conjunct2, THEN conjunct1, folded SS]
  note a10 = a [THEN conjunct2, THEN conjunct2, THEN conjunct2, THEN conjunct2, THEN conjunct2,
               THEN conjunct2, THEN conjunct2, THEN conjunct2, THEN conjunct2, folded SS]
  from run_returns [OF a2 a3 a1 a4 a5 a6 a7 a8 a9 a10, of d layer] obtain h2 where
    r: "add_electrical_pads_shortest h component pad d sp port_names ang layer = Inr (h2, length h)" ..
  from run_Inr(3) [OF r] obtain xsize' q' where
    xs': "map_of (info (h ! pad)) ''xsize'' = Some xsize'"
    and ins: "instances (references (h2 ! length h)) =
               new_reference component #
               map (\<lambda>port. placed h pad port (d + xsize' / 2) ang) (selected_ports h component sp)"
    by (elim exE conjE) (rule that)
  from xs' a4 have x: "xsize' = xsize" by simp
  have p: "pad_references (h2 ! length h) = map (\<lambda>port. placed h pad port (d + xsize / 2) ang) S"
    by (simp add: pad_references_def ins x SS)
  show "\<exists>h2. add_electrical_pads_shortest h component pad d sp port_names ang layer
               = Inr (h2, length h) \<and>
            pad_references (h2 ! length h) =
              map (\<lambda>port. placed h pad port (d + xsize / 2) ang) S"
    by (intro exI [of _ h2] conjI) (rule r p)+
qed


text \<open>
  The scenario with the empty list of port names, with the default selection and with the
  identity as selection, which agree on the ports of the wire; at 0 degrees the pads
  follow \<^verbatim>\<open>e1\<close> and \<^verbatim>\<open>e2\<close> in that order. With names, a missing one is reported.
\<close>

theorem port_names_precedence_witness:
  "add_electrical_pads_shortest [wire, pad20] 0 1 50 select_ports_electrical (Some [''e1'', ''zz'']) 0 ''M3'' =
   add_electrical_pads_shortest [wire, pad20] 0 1 50 (\<lambda>d. d) (Some [''e1'', ''zz'']) 0 ''M3'' \<and>
   add_electrical_pads_shortest [wire, pad20] 0 1 50 select_ports_electrical (Some [''e1'', ''zz'']) 0 ''M3'' =
   Inl LookupError \<and>
   add_electrical_pads_shortest [wire, pad20] 0 1 50 select_ports_electrical (Some []) 0 ''M3'' =
   add_electrical_pads_shortest [wire, pad20] 0 1 50 (\<lambda>d. d) (Some []) 0 ''M3'' \<and>
   add_electrical_pads_shortest [wire, pad20] 0 1 50 select_ports_electrical (Some []) 0 ''M3'' =
   add_electrical_pads_shortest [wire, pad20] 0 1 50 select_ports_electrical None 0 ''M3'' \<and>
   (\<exists>h'. add_electrical_pads_shortest [wire, pad20] 0 1 50 select_ports_electrical (Some []) 0 ''M3''
           = Inr (h', 2) \<and>
      map (reference_center [wire, pad20]) (pad_references (h' ! 2)) = [(60, 0), (260, 0)] \<and>
      map (reference_center [wire, pad20]) (tl (instances (references (h' ! 2)))) = [(60, 0), (260, 0)])"
proof -
  note T = port_names_precedence [where ns = "[''e1'', ''zz'']" and h = "[wire, pad20]"
      and component = 0 and pad = 1 and d = 50 and sp = select_ports_electrical
      and sp' = "\<lambda>d. d" and ang = 0 and layer = "''M3''" and port_names = "Some []"
      and xsize = 20 and q = "snd (mk_port ''pad'' 0 0 0 ''vertical_dc'')"]
  note T1 = T [THEN conjunct1]
  note T2 = T [THEN conjunct2, THEN conjunct1]
  note T3 = T [THEN conjunct2, THEN conjunct2, THEN conjunct1]
  note T4 = T [THEN conjunct2, THEN conjunct2, THEN conjunct2, THEN conjunct1]
  note T5 = T [THEN conjunct2, THEN conjunct2, THEN conjunct2, THEN conjunct2, THEN conjunct1]
  note T6 = T [THEN conjunct2, THEN conjunct2, THEN conjunct2, THEN conjunct2, THEN conjunct2]
  have e: "select_ports_electrical (ports ([wire, pad20] ! 0)) = (\<lambda>d. d) (ports ([wire, pad20] ! 0))"
    by (simp add: select_ports_electrical_def wire_def mk_port_def)
  have a: "add_electrical_pads_shortest [wire, pad20] 0 1 50 select_ports_electrical (Some [''e1'', ''zz'']) 0 ''M3'' =
   add_electrical_pads_shortest [wire, pad20] 0 1 50 (\<lambda>d. d) (Some [''e1'', ''zz'']) 0 ''M3''"
    using T1 by simp
  have a': "add_electrical_pads_shortest [wire, pad20] 0 1 50 select_ports_electrical (Some [''e1'', ''zz'']) 0 ''M3'' =
   Inl LookupError"
    using T2 by (simp add: wire_def mk_port_def)
  have b: "add_electrical_pads_shortest [wire, pad20] 0 1 50 select_ports_electrical (Some []) 0 ''M3'' =
   add_electrical_pads_shortest [wire, pad20] 0 1 50 (\<lambda>d. d) (Some []) 0 ''M3''"
    using T3 e by simp
  have B: "\<exists>h2. add_electrical_pads_shortest [wire, pad20] 0 1 50 select_ports_electrical (Some []) 0 ''M3''
               = Inr (h2, length [wire, pad20]) \<and>
            pad_references (h2 ! length [wire, pad20]) =
              map (\<lambda>port. placed [wire, pad20] 1 port (50 + 20 / 2) 0)
                (map snd (select_ports_electrical (ports ([wire, pad20] ! 0))))"
    by (rule T6 [THEN mp], intro conjI)
       (simp_all add: wire_def pad20_def mk_port_def select_ports_electrical_def pad_port_name_def)
  then obtain h' where
    r: "add_electrical_pads_shortest [wire, pad20] 0 1 50 select_ports_electrical (Some []) 0 ''M3''
               = Inr (h', length [wire, pad20])"
    and p: "pad_references (h' ! length [wire, pad20]) =
              map (\<lambda>port. placed [wire, pad20] 1 port (50 + 20 / 2) 0)
                (map snd (select_ports_electrical (ports ([wire, pad20] ! 0))))"
    by (elim exE conjE) (rule that)
  have len2: "length [wire, pad20] = 2" by simp
  note r2 = r [unfolded len2]
  have c1: "map (reference_center [wire, pad20]) (pad_references (h' ! 2)) = [(60, 0), (260, 0)]"
    unfolding p [unfolded len2] e
    by (simp add: reference_center_placed wire_def mk_port_def pad20_def)
  from T4 [of h' 2] r2 obtain xsize where
    xs: "map_of (info ([wire, pad20] ! 1)) ''xsize'' = Some xsize"
    and tl: "tl (instances (references (h' ! 2))) =
         map (\<lambda>port. placed [wire, pad20] 1 port (50 + xsize / 2) 0)
           (map snd (select_ports_electrical (ports ([wire, pad20] ! 0))))"
    by (elim impE exE conjE) (simp, rule that)
  from xs have x: "xsize = 20" by (simp add: pad20_def)
  have c2: "map (reference_center [wire, pad20]) (tl (instances (references (h' ! 2)))) = [(60, 0), (260, 0)]"
    unfolding tl x e by (simp add: reference_center_placed wire_def mk_port_def pad20_def)
  show ?thesis
    by (intro conjI exI [of _ h']) (rule a a' b T5 r2 c1 c2)+
qed

subsection \<open>A pad that is not square\<close>

text \<open>
  Claim C2 places the pad at the spacing plus half of the extent of the pad along the
  connection axis. Line 57 adds half of \<^verbatim>\<open>xsize\<close> whatever the orientation is, so at 90
  and 270 degrees the function uses the x extent where the connection axis is y. For the
  pad that is 20 wide and 40 high and the wire of the scenario at 90 degrees, the pads are
  centred 60 above their ports, not 50 + 20 = 70 as the claim has it (their lower edge is
  40 above the port, not the spacing 50).
\<close>

theorem tall_pad_placement:
  "pad_centers (add_electrical_pads_shortest [wire, tall_pad] 0 1 50 select_ports_electrical None
       90 ''M3'') = Some [(0, 60), (200, 60)] \<and>
   connection_half_extent tall_pad 90 = Some 20 \<and>
   pad_centers (add_electrical_pads_shortest [wire, tall_pad] 0 1 50 select_ports_electrical None
       90 ''M3'') \<noteq> Some [(0, 0 + 50 + 20), (200, 0 + 50 + 20)]"
proof -
  have a: "pad_centers (add_electrical_pads_shortest [wire, tall_pad] 0 1 50 select_ports_electrical None
       90 ''M3'') = Some [(0, 60), (200, 60)]"
    by (simp add: eval_defs tall_pad_def pad_centers_def pad_references_def reference_center_def
        str_1 str_2)
  have b: "connection_half_extent tall_pad 90 = Some 20"
    by (simp add: connection_half_extent_def tall_pad_def)
  have c: "pad_centers (add_electrical_pads_shortest [wire, tall_pad] 0 1 50 select_ports_electrical None
       90 ''M3'') \<noteq> Some [(0, 0 + 50 + 20), (200, 0 + 50 + 20)]"
    unfolding a by simp
  show ?thesis
    by (intro conjI) (rule a b c)+
qed

end
